theory Spec2Isabelle
  imports Complex_Main "HOL-Library.AList"
begin

section \<open>The maze environment of \<open>sac/envs/ant_maze_env.py\<close>\<close>

text \<open>
  A shallow embedding of class \<open>AntMazeEnv\<close>. Python floats are idealised as the real
  numbers, so the arithmetic below is exact; rounding is outside this development.
  The collaborators that are not part of the file are parameters: the helper module
  \<open>maze_env_utils\<close> is a record of its functions, and the wrapped physics model
  (\<open>AntEnv\<close>) is a record of its methods over an abstract simulator state.
\<close>

subsection \<open>Data\<close>

text \<open>The exceptions the class can raise.\<close>

datatype error =
    AssertionError
  | IndexError
  | AttributeError
  | ValueError
  | ZeroDivisionError
  | GeomNameException

text \<open>
  A cell tag of the maze grid is a Python value: an integer (\<open>0\<close> open, \<open>1\<close> wall,
  \<open>-1\<close> chasm, and the tags of \<open>maze_env_utils.Move\<close>) or a string (\<open>'r'\<close>, the
  robot start).
\<close>

datatype cell = Num int | Str string

type_synonym point = "real \<times> real"
type_synonym segment = "point \<times> point"

text \<open>\<open>structure[i][j]\<close>: Python raises \<open>IndexError\<close> outside the list.\<close>

definition at_cell :: "cell list list \<Rightarrow> nat \<Rightarrow> nat \<Rightarrow> error + cell" where
  "at_cell grid i j =
     (if i < length grid
      then (if j < length (grid ! i) then Inr (grid ! i ! j) else Inl IndexError)
      else Inl IndexError)"

text \<open>\<open>len(structure[0])\<close>; it is only evaluated inside the loop over the rows.\<close>

definition ncols :: "cell list list \<Rightarrow> nat" where
  "ncols grid = (case grid of [] \<Rightarrow> 0 | row # _ \<Rightarrow> length row)"

text \<open>
  The index pairs visited by
  \<open>for i in range(len(structure)): for j in range(len(structure[0]))\<close>, in order.
\<close>

definition grid_cells :: "cell list list \<Rightarrow> (nat \<times> nat) list" where
  "grid_cells grid = List.product [0..<length grid] [0..<ncols grid]"

subsection \<open>Locating the robot\<close>

text \<open>
  \<open>_find_robot\<close>: returns at the first \<open>'r'\<close> cell; \<open>assert False\<close> after the loops.
\<close>

fun find_robot_scan :: "cell list list \<Rightarrow> real \<Rightarrow> (nat \<times> nat) list \<Rightarrow> error + point" where
  "find_robot_scan grid size_scaling [] = Inl AssertionError"
| "find_robot_scan grid size_scaling ((i, j) # rest) =
     (case at_cell grid i j of
        Inl e \<Rightarrow> Inl e
      | Inr c \<Rightarrow>
          if c = Str ''r'' then Inr (real j * size_scaling, real i * size_scaling)
          else find_robot_scan grid size_scaling rest)"

definition find_robot :: "cell list list \<Rightarrow> real \<Rightarrow> error + point" where
  "find_robot grid size_scaling = find_robot_scan grid size_scaling (grid_cells grid)"

text \<open>\<open>_find_all_robots\<close>: appends the coordinates of every \<open>'r'\<close> cell.\<close>

fun find_all_robots_scan ::
  "cell list list \<Rightarrow> real \<Rightarrow> (nat \<times> nat) list \<Rightarrow> point list \<Rightarrow> error + point list" where
  "find_all_robots_scan grid size_scaling [] coords = Inr coords"
| "find_all_robots_scan grid size_scaling ((i, j) # rest) coords =
     (case at_cell grid i j of
        Inl e \<Rightarrow> Inl e
      | Inr c \<Rightarrow>
          find_all_robots_scan grid size_scaling rest
            (if c = Str ''r''
             then coords @ [(real j * size_scaling, real i * size_scaling)]
             else coords))"

definition find_all_robots :: "cell list list \<Rightarrow> real \<Rightarrow> error + point list" where
  "find_all_robots grid size_scaling = find_all_robots_scan grid size_scaling (grid_cells grid) []"

text \<open>A grid is a two-dimensional array when every row has the length of the first.\<close>

definition rectangular :: "cell list list \<Rightarrow> bool" where
  "rectangular grid = list_all (\<lambda>row. length row = ncols grid) grid"

subsection \<open>The helper module and the wrapped model\<close>

text \<open>
  The functions of \<open>maze_env_utils\<close> that the class calls. The module is not part of the
  file, so its functions are parameters; nothing is assumed about them except where a
  theorem says so.
\<close>

record utils =
  Move_SpinXY :: cell
  can_move :: "cell \<Rightarrow> bool"
  can_move_x :: "cell \<Rightarrow> bool"
  can_move_y :: "cell \<Rightarrow> bool"
  can_move_z :: "cell \<Rightarrow> bool"
  can_spin :: "cell \<Rightarrow> bool"
  ray_segment_intersect :: "point \<times> real \<Rightarrow> segment \<Rightarrow> point option"
  point_distance :: "point \<Rightarrow> point \<Rightarrow> real"

text \<open>
  The scene description. An attribute value is a text, or the numbers that a \<open>%f\<close>
  format writes (the rounding to six decimals is not modelled).
\<close>

datatype attr = Text string | Floats "real list"

datatype element = Element string "(string \<times> attr) list" "element list"

text \<open>
  The parts of the parsed model file that the constructor reads or writes: the attributes
  of the torso body, the attribute dictionaries of the geoms below the torso, the
  attributes of the default geom, and the children of \<open>worldbody\<close>.
\<close>

record xml_tree =
  torso_attrib :: "(string \<times> attr) list"
  torso_geoms :: "(string \<times> attr) list list"
  default_geom_attrib :: "(string \<times> attr) list"
  worldbody :: "element list"

text \<open>
  The methods of the wrapped model over a simulator state \<open>'w\<close>. \<open>model_cls\<close> is the call
  \<open>model_cls(file_path=...)\<close> on the written scene, \<open>None\<close> when it raises the
  \<open>AssertionError\<close> that the constructor swallows. The reading methods return values and
  leave the state as it is; \<open>render\<close> returns the bytes of the image, flattened.
\<close>

record ('w, 'act, 'info) model =
  model_cls :: "xml_tree \<Rightarrow> 'w option"
  update_cam :: "'w \<Rightarrow> 'w"
  wrapped_step :: "'act \<Rightarrow> 'w \<Rightarrow> (real list \<times> real \<times> bool \<times> 'info) \<times> 'w"
  wrapped_reset :: "'w \<Rightarrow> 'w"
  get_xy :: "'w \<Rightarrow> point"
  set_xy :: "point \<Rightarrow> 'w \<Rightarrow> 'w"
  get_body_com :: "string \<Rightarrow> 'w \<Rightarrow> real \<times> real \<times> real"
  get_ori :: "'w \<Rightarrow> real"
  wrapped_get_obs :: "'w \<Rightarrow> real list"
  render :: "int \<Rightarrow> int \<Rightarrow> 'w \<Rightarrow> nat list"

text \<open>
  The attributes of an \<open>AntMazeEnv\<close> object, without the leading underscores. \<open>t\<close>,
  \<open>trajectory\<close> and \<open>wrapped_env\<close> are \<open>None\<close> while the attribute does not exist;
  \<open>sensor_range\<close> holds \<open>sensor_range * size_scaling\<close>. The attributes that only
  \<open>get_top_down_view\<close> reads (\<open>_view\<close>, \<open>_xy_to_rowcol\<close>, the robot pose it caches) and
  \<open>_maze_id\<close> are left out.
\<close>

record 'w ant_maze_env =
  MAZE_HEIGHT :: real
  MAZE_SIZE_SCALING :: real
  MAZE_STRUCTURE :: "cell list list"
  n_bins :: int
  sensor_range :: real
  sensor_span :: real
  observe_blocks :: bool
  put_spin_near_agent :: bool
  top_down_view :: bool
  manual_collision :: bool
  image_size :: int
  elevated :: bool
  blocks :: bool
  init_torso_x :: real
  init_torso_y :: real
  init_positions :: "point list"
  movable_blocks :: "(string \<times> cell) list"
  t :: "int option"
  trajectory :: "point list option"
  wrapped_env :: "'w option"

text \<open>The keyword arguments of the constructor; \<open>arg_structure\<close> is the grid that
  \<open>construct_maze(maze_id)\<close> returns.\<close>

record args =
  arg_structure :: "cell list list"
  arg_maze_height :: real
  arg_maze_size_scaling :: real
  arg_n_bins :: int
  arg_sensor_range :: real
  arg_sensor_span :: real
  arg_observe_blocks :: bool
  arg_put_spin_near_agent :: bool
  arg_top_down_view :: bool
  arg_image_size :: int
  arg_manual_collision :: bool

subsection \<open>Names of scene elements\<close>

text \<open>\<open>"%d" % n\<close> for the indices of \<open>range\<close>, which are not negative.\<close>

definition digit_char :: "nat \<Rightarrow> char" where
  "digit_char d = ''0123456789'' ! (d mod 10)"

fun fmt_d :: "nat \<Rightarrow> string" where
  "fmt_d n = (if n < 10 then [digit_char n] else fmt_d (n div 10) @ [digit_char (n mod 10)])"

declare fmt_d.simps [simp del]

text \<open>\<open>prefix + "%d_%d" % (i, j)\<close>\<close>

definition cell_name :: "string \<Rightarrow> nat \<Rightarrow> nat \<Rightarrow> string" where
  "cell_name prefix i j = prefix @ fmt_d i @ ''_'' @ fmt_d j"

subsection \<open>The scene compiler (the loop of \<open>__init__\<close>)\<close>

text \<open>The platform below a cell of an elevated maze.\<close>

definition elevated_geom :: "real \<Rightarrow> real \<Rightarrow> real \<Rightarrow> real \<Rightarrow> nat \<Rightarrow> nat \<Rightarrow> element" where
  "elevated_geom height size_scaling torso_x torso_y i j =
     Element ''geom''
       [(''name'', Text (cell_name ''elevated_'' i j)),
        (''pos'', Floats [real j * size_scaling - torso_x,
                          real i * size_scaling - torso_y,
                          height / 2 * size_scaling]),
        (''size'', Floats [0.5 * size_scaling, 0.5 * size_scaling, height / 2 * size_scaling]),
        (''type'', Text ''box''),
        (''material'', Text []),
        (''contype'', Text ''1''),
        (''conaffinity'', Text ''1''),
        (''rgba'', Text ''0.9 0.9 0.9 1'')]
       []"

text \<open>The box of an unmovable block; \<open>rows\<close> and \<open>cols\<close> are \<open>len(structure)\<close> and
  \<open>len(structure[0])\<close>.\<close>

definition wall_geom ::
  "real \<Rightarrow> real \<Rightarrow> real \<Rightarrow> real \<Rightarrow> real \<Rightarrow> nat \<Rightarrow> nat \<Rightarrow> nat \<Rightarrow> nat \<Rightarrow> element" where
  "wall_geom height size_scaling torso_x torso_y height_offset rows cols i j =
     Element ''geom''
       [(''name'', Text (cell_name ''block_'' i j)),
        (''pos'', Floats [real j * size_scaling - torso_x,
                          real i * size_scaling - torso_y,
                          height_offset + height / 2 * size_scaling]),
        (''size'', Floats [0.5 * size_scaling, 0.5 * size_scaling, height / 2 * size_scaling]),
        (''type'', Text ''box''),
        (''material'', Text []),
        (''contype'', Text ''1''),
        (''conaffinity'', Text ''1''),
        (''rgba'', Floats [real i / real rows, real j / real cols, 0.4, 1])]
       []"

text \<open>The slide and ball joints of a movable block, in the order of the source.\<close>

definition slide_joint :: "string \<Rightarrow> string \<Rightarrow> bool \<Rightarrow> real list \<Rightarrow> nat \<Rightarrow> nat \<Rightarrow> element" where
  "slide_joint prefix axis limited rng i j =
     Element ''joint''
       [(''armature'', Text ''0''),
        (''axis'', Text axis),
        (''damping'', Text ''0.0''),
        (''limited'', Text (if limited then ''true'' else ''false'')),
        (''range'', Floats rng),
        (''margin'', Text ''0.01''),
        (''name'', Text (cell_name prefix i j)),
        (''pos'', Text ''0 0 0''),
        (''type'', Text ''slide'')]
       []"

definition ball_joint :: "nat \<Rightarrow> nat \<Rightarrow> element" where
  "ball_joint i j =
     Element ''joint''
       [(''armature'', Text ''0''),
        (''axis'', Text ''0 0 1''),
        (''damping'', Text ''0.0''),
        (''limited'', Text ''false''),
        (''name'', Text (cell_name ''spinable_'' i j)),
        (''pos'', Text ''0 0 0''),
        (''type'', Text ''ball'')]
       []"

definition movable_joints :: "utils \<Rightarrow> real \<Rightarrow> real \<Rightarrow> cell \<Rightarrow> nat \<Rightarrow> nat \<Rightarrow> element list" where
  "movable_joints U size_scaling height_offset struct i j =
     (let falling = can_move_z U struct in
      (if can_move_x U struct
       then [slide_joint ''movable_x_'' ''1 0 0'' falling [- size_scaling, size_scaling] i j]
       else []) @
      (if can_move_y U struct
       then [slide_joint ''movable_y_'' ''0 1 0'' falling [- size_scaling, size_scaling] i j]
       else []) @
      (if can_move_z U struct
       then [slide_joint ''movable_z_'' ''0 0 1'' True [- height_offset, 0] i j]
       else []) @
      (if can_spin U struct then [ball_joint i j] else []))"

text \<open>The shrink factors of a movable block.\<close>

definition shrink :: "utils \<Rightarrow> cell \<Rightarrow> real" where
  "shrink U struct =
     (if can_spin U struct then 0.1 else if can_move_z U struct then 0.99 else 1.0)"

definition height_shrink :: "utils \<Rightarrow> cell \<Rightarrow> real" where
  "height_shrink U struct = (if can_spin U struct then 0.1 else 1.0)"

definition movable_geom :: "utils \<Rightarrow> real \<Rightarrow> real \<Rightarrow> cell \<Rightarrow> nat \<Rightarrow> nat \<Rightarrow> element" where
  "movable_geom U height size_scaling struct i j =
     Element ''geom''
       [(''name'', Text (cell_name ''block_'' i j)),
        (''pos'', Text ''0 0 0''),
        (''size'', Floats [0.5 * size_scaling * shrink U struct,
                           0.5 * size_scaling * shrink U struct,
                           height / 2 * size_scaling * height_shrink U struct]),
        (''type'', Text ''box''),
        (''material'', Text []),
        (''mass'', Text (if can_move_z U struct then ''0.001'' else ''0.0002'')),
        (''contype'', Text ''1''),
        (''conaffinity'', Text ''1''),
        (''rgba'', Text ''0.9 0.1 0.1 1'')]
       []"

definition movable_body ::
  "utils \<Rightarrow> real \<Rightarrow> real \<Rightarrow> real \<Rightarrow> real \<Rightarrow> real \<Rightarrow> cell \<Rightarrow> nat \<Rightarrow> nat \<Rightarrow> element" where
  "movable_body U height size_scaling torso_x torso_y height_offset struct i j =
     (let x_offset = (if can_spin U struct then 0.25 * size_scaling else 0.0);
          y_offset = 0.0
      in Element ''body''
           [(''name'', Text (cell_name ''movable_'' i j)),
            (''pos'', Floats [real j * size_scaling - torso_x + x_offset,
                              real i * size_scaling - torso_y + y_offset,
                              height_offset +
                                height / 2 * size_scaling * height_shrink U struct])]
           (movable_geom U height size_scaling struct i j #
            movable_joints U size_scaling height_offset struct i j))"

text \<open>
  The constants of the compilation loop: the utilities, the \<open>put_spin_near_agent\<close> flag,
  \<open>elevated\<close>, the height, the size scaling, the torso origin, the height offset, and the
  two lengths of the grid.
\<close>

record scene_consts =
  sc_utils :: utils
  sc_put_spin :: bool
  sc_elevated :: bool
  sc_height :: real
  sc_size_scaling :: real
  sc_torso_x :: real
  sc_torso_y :: real
  sc_height_offset :: real
  sc_rows :: nat
  sc_cols :: nat

text \<open>The tag that the loop body works with: a robot cell becomes \<open>Move.SpinXY\<close> when
  \<open>put_spin_near_agent\<close> is set.\<close>

definition cell_struct :: "scene_consts \<Rightarrow> cell \<Rightarrow> cell" where
  "cell_struct K c = (if c = Str ''r'' \<and> sc_put_spin K then Move_SpinXY (sc_utils K) else c)"

text \<open>
  One pass of the loop body for cell \<open>(i, j)\<close> holding \<open>c\<close>: the elements appended to
  \<open>worldbody\<close> and the entries appended to \<open>movable_blocks\<close>.
\<close>

definition compile_cell ::
  "scene_consts \<Rightarrow> nat \<Rightarrow> nat \<Rightarrow> cell \<Rightarrow> element list \<times> (string \<times> cell) list" where
  "compile_cell K i j c =
     (let struct = cell_struct K c;
          platform =
            (if sc_elevated K \<and> struct \<notin> set [Num (- 1)]
             then [elevated_geom (sc_height K) (sc_size_scaling K)
                     (sc_torso_x K) (sc_torso_y K) i j]
             else [])
      in if struct = Num 1
         then (platform @
                 [wall_geom (sc_height K) (sc_size_scaling K) (sc_torso_x K) (sc_torso_y K)
                    (sc_height_offset K) (sc_rows K) (sc_cols K) i j],
               [])
         else if can_move (sc_utils K) struct
         then (platform @
                 [movable_body (sc_utils K) (sc_height K) (sc_size_scaling K)
                    (sc_torso_x K) (sc_torso_y K) (sc_height_offset K) struct i j],
               [(cell_name ''movable_'' i j, struct)])
         else (platform, []))"

text \<open>The two nested loops over the grid, stopping at an \<open>IndexError\<close>.\<close>

fun compile_scan ::
  "scene_consts \<Rightarrow> cell list list \<Rightarrow> (nat \<times> nat) list \<Rightarrow>
   element list \<times> (string \<times> cell) list \<Rightarrow> error + element list \<times> (string \<times> cell) list" where
  "compile_scan K grid [] acc = Inr acc"
| "compile_scan K grid ((i, j) # rest) acc =
     (case at_cell grid i j of
        Inl e \<Rightarrow> Inl e
      | Inr c \<Rightarrow>
          compile_scan K grid rest
            (fst acc @ fst (compile_cell K i j c), snd acc @ snd (compile_cell K i j c)))"

subsection \<open>The constructor\<close>

text \<open>
  \<open>__init__\<close>, from the keyword arguments and the parsed model file to the new object
  and the tree that is written out. \<open>torso.set\<close> and the \<open>solimp\<close> update replace or add
  one attribute; the check after the loop raises when a geom of the torso has no name.
\<close>

definition AntMazeEnv_init ::
  "('w, 'act, 'info) model \<Rightarrow> utils \<Rightarrow> args \<Rightarrow> xml_tree \<Rightarrow> error + 'w ant_maze_env \<times> xml_tree" where
  "AntMazeEnv_init M U a tree =
     (let height = arg_maze_height a;
          size_scaling = arg_maze_size_scaling a;
          grid = arg_structure a;
          is_elevated = list_ex (\<lambda>row. Num (- 1) \<in> set row) grid;
          has_blocks = list_ex (\<lambda>row. list_ex (can_move U) row) grid
      in case find_robot grid size_scaling of
           Inl e \<Rightarrow> Inl e
         | Inr (torso_x, torso_y) \<Rightarrow>
        (case find_all_robots grid size_scaling of
           Inl e \<Rightarrow> Inl e
         | Inr robots \<Rightarrow>
        (let positions = map (\<lambda>(x, y). (x - torso_x, y - torso_y)) robots;
             height_offset = (if is_elevated then height * size_scaling else 0);
             tree1 =
               (if is_elevated
                then tree\<lparr>torso_attrib :=
                       AList.update ''pos'' (Floats [0, 0, 0.75 + height_offset])
                         (torso_attrib tree)\<rparr>
                else tree);
             tree2 =
               (if has_blocks
                then tree1\<lparr>default_geom_attrib :=
                       AList.update ''solimp'' (Text ''.995 .995 .01'')
                         (default_geom_attrib tree1)\<rparr>
                else tree1);
             K = \<lparr>sc_utils = U, sc_put_spin = arg_put_spin_near_agent a,
                  sc_elevated = is_elevated, sc_height = height,
                  sc_size_scaling = size_scaling, sc_torso_x = torso_x, sc_torso_y = torso_y,
                  sc_height_offset = height_offset,
                  sc_rows = length grid, sc_cols = ncols grid\<rparr>
         in case compile_scan K grid (grid_cells grid) ([], []) of
              Inl e \<Rightarrow> Inl e
            | Inr (added, mblocks) \<Rightarrow>
           (let tree3 = tree2\<lparr>worldbody := worldbody tree2 @ added\<rparr>
            in if list_ex (\<lambda>geom. map_of geom ''name'' = None) (torso_geoms tree3)
               then Inl GeomNameException
               else Inr
                 (\<lparr>MAZE_HEIGHT = height,
                   MAZE_SIZE_SCALING = size_scaling,
                   MAZE_STRUCTURE = grid,
                   n_bins = arg_n_bins a,
                   sensor_range = arg_sensor_range a * size_scaling,
                   sensor_span = arg_sensor_span a,
                   observe_blocks = arg_observe_blocks a,
                   put_spin_near_agent = arg_put_spin_near_agent a,
                   top_down_view = arg_top_down_view a,
                   manual_collision = arg_manual_collision a,
                   image_size = arg_image_size a,
                   elevated = is_elevated,
                   blocks = has_blocks,
                   init_torso_x = torso_x,
                   init_torso_y = torso_y,
                   init_positions = positions,
                   movable_blocks = mblocks,
                   t = None,
                   trajectory = None,
                   wrapped_env = model_cls M tree3\<rparr>,
                  tree3)))))"

subsection \<open>The range sensor\<close>

text \<open>The four sides of a square, \<open>struct_segments\<close> in the source.\<close>

definition struct_segments :: "real \<Rightarrow> real \<Rightarrow> real \<Rightarrow> real \<Rightarrow> segment list" where
  "struct_segments x1 x2 y1 y2 =
     [((x1, y1), (x2, y1)),
      ((x2, y1), (x2, y2)),
      ((x2, y2), (x1, y2)),
      ((x1, y2), (x1, y1))]"

text \<open>The first loop of \<open>get_range_sensor_obs\<close>: the sides of every wall and chasm cell,
  each with the tag of the cell.\<close>

fun grid_segments_scan ::
  "cell list list \<Rightarrow> real \<Rightarrow> real \<Rightarrow> real \<Rightarrow> (nat \<times> nat) list \<Rightarrow>
   (segment \<times> cell) list \<Rightarrow> error + (segment \<times> cell) list" where
  "grid_segments_scan grid size_scaling torso_x torso_y [] segments = Inr segments"
| "grid_segments_scan grid size_scaling torso_x torso_y ((i, j) # rest) segments =
     (case at_cell grid i j of
        Inl e \<Rightarrow> Inl e
      | Inr c \<Rightarrow>
          grid_segments_scan grid size_scaling torso_x torso_y rest
            (if c \<in> set [Num 1, Num (- 1)]
             then (let cx = real j * size_scaling - torso_x;
                       cy = real i * size_scaling - torso_y;
                       x1 = cx - 0.5 * size_scaling;
                       x2 = cx + 0.5 * size_scaling;
                       y1 = cy - 0.5 * size_scaling;
                       y2 = cy + 0.5 * size_scaling
                   in segments @ map (\<lambda>seg. (seg, c)) (struct_segments x1 x2 y1 y2))
             else segments))"

text \<open>The second loop: the sides of every movable block whose height band holds the
  robot's \<open>z\<close>, each with the tag of the block.\<close>

definition block_segments ::
  "('w, 'act, 'info) model \<Rightarrow> 'w ant_maze_env \<Rightarrow> 'w \<Rightarrow> real \<Rightarrow> (segment \<times> cell) list" where
  "block_segments M env w robot_z =
     concat (map (\<lambda>(block_name, block_type).
       (case get_body_com M block_name w of (block_x, block_y, block_z) \<Rightarrow>
          if block_z + MAZE_HEIGHT env * MAZE_SIZE_SCALING env / 2 \<ge> robot_z
             \<and> robot_z \<ge> block_z - MAZE_HEIGHT env * MAZE_SIZE_SCALING env / 2
          then (let x1 = block_x - 0.5 * MAZE_SIZE_SCALING env;
                    x2 = block_x + 0.5 * MAZE_SIZE_SCALING env;
                    y1 = block_y - 0.5 * MAZE_SIZE_SCALING env;
                    y2 = block_y + 0.5 * MAZE_SIZE_SCALING env
                in map (\<lambda>seg. (seg, block_type)) (struct_segments x1 x2 y1 y2))
          else []))
       (movable_blocks env))"

text \<open>The angle of ray \<open>ray_idx\<close>.\<close>

definition ray_ori :: "real \<Rightarrow> real \<Rightarrow> int \<Rightarrow> nat \<Rightarrow> real" where
  "ray_ori ori sspan nb ray_idx =
     ori - sspan * 0.5 + (2 * real ray_idx + 1.0) / (2 * real_of_int nb) * sspan"

text \<open>An entry of \<open>ray_segments\<close>.\<close>

record hit =
  hit_segment :: segment
  hit_type :: cell
  hit_ray_ori :: real
  hit_distance :: real

text \<open>The segments that the ray meets, with the distance of the meeting point.\<close>

definition ray_segments :: "utils \<Rightarrow> point \<Rightarrow> real \<Rightarrow> (segment \<times> cell) list \<Rightarrow> hit list" where
  "ray_segments U robot ori segments =
     List.map_filter (\<lambda>(seg, seg_type).
       (case ray_segment_intersect U (robot, ori) seg of
          None \<Rightarrow> None
        | Some p \<Rightarrow>
            Some \<lparr>hit_segment = seg, hit_type = seg_type, hit_ray_ori = ori,
                  hit_distance = point_distance U p robot\<rparr>))
       segments"

text \<open>The channel of a segment tag: the conditional expression for \<open>idx\<close>.\<close>

definition channel :: "utils \<Rightarrow> cell \<Rightarrow> nat option" where
  "channel U seg_type =
     (if seg_type = Num 1 then Some 0
      else if seg_type = Num (- 1) then Some 1
      else if can_move U seg_type then Some 2
      else None)"

text \<open>\<open>row[idx] = v\<close> on a numpy row: with \<open>idx = None\<close> the assignment goes to the view
  \<open>row[None]\<close> and fills the whole row.\<close>

definition write_channel :: "real list \<Rightarrow> nat option \<Rightarrow> real \<Rightarrow> real list" where
  "write_channel row idx v =
     (case idx of
        Some k \<Rightarrow> row[k := v]
      | None \<Rightarrow> map (\<lambda>_. v) row)"

text \<open>
  The body of the loop over the rays, for one ray: the row of \<open>sensor_readings\<close> after
  the pass. \<open>sorted(...)[0]\<close> is the head of a stable sort by distance. The quotient by a
  zero range is no number (\<open>ZeroDivisionError\<close> on Python floats, \<open>nan\<close> or \<open>inf\<close> on
  numpy floats); the model reports it as an error.
\<close>

definition ray_reading ::
  "utils \<Rightarrow> real \<Rightarrow> point \<Rightarrow> real \<Rightarrow> (segment \<times> cell) list \<Rightarrow> error + real list" where
  "ray_reading U rng robot ori segments =
     (let row = [0, 0, 0];
          hits = ray_segments U robot ori segments
      in if length hits > 0
         then (case sort_key hit_distance hits of
                 [] \<Rightarrow> Inl IndexError
               | first_seg # _ \<Rightarrow>
                   (let seg_type = hit_type first_seg;
                        idx = channel U seg_type
                    in if hit_distance first_seg \<le> rng
                       then (if rng = 0 then Inl ZeroDivisionError
                             else Inr (write_channel row idx
                                         ((rng - hit_distance first_seg) / rng)))
                       else Inr row))
         else Inr row)"

text \<open>The loop over \<open>range(n_bins)\<close>, collecting the rows.\<close>

fun sensor_rows :: "(nat \<Rightarrow> error + real list) \<Rightarrow> nat list \<Rightarrow> error + real list list" where
  "sensor_rows f [] = Inr []"
| "sensor_rows f (ray_idx # rest) =
     (case f ray_idx of
        Inl e \<Rightarrow> Inl e
      | Inr row \<Rightarrow>
          (case sensor_rows f rest of
             Inl e \<Rightarrow> Inl e
           | Inr rows \<Rightarrow> Inr (row # rows)))"

text \<open>The segment list of one call, for a simulator state and the robot's height.\<close>

definition sensor_segments ::
  "('w, 'act, 'info) model \<Rightarrow> 'w ant_maze_env \<Rightarrow> 'w \<Rightarrow> real \<Rightarrow> error + (segment \<times> cell) list" where
  "sensor_segments M env w robot_z =
     (case grid_segments_scan (MAZE_STRUCTURE env) (MAZE_SIZE_SCALING env)
             (init_torso_x env) (init_torso_y env) (grid_cells (MAZE_STRUCTURE env)) [] of
        Inl e \<Rightarrow> Inl e
      | Inr segments \<Rightarrow> Inr (segments @ block_segments M env w robot_z))"

text \<open>\<open>get_range_sensor_obs\<close>; \<open>np.zeros((n_bins, 3))\<close> raises \<open>ValueError\<close> for a
  negative \<open>n_bins\<close>.\<close>

definition get_range_sensor_obs ::
  "('w, 'act, 'info) model \<Rightarrow> utils \<Rightarrow> 'w ant_maze_env \<Rightarrow> error + real list list" where
  "get_range_sensor_obs M U env =
     (case wrapped_env env of
        None \<Rightarrow> Inl AttributeError
      | Some w \<Rightarrow>
          (case get_body_com M ''torso'' w of (robot_x, robot_y, robot_z) \<Rightarrow>
             (let ori = get_ori M w
              in case sensor_segments M env w robot_z of
                   Inl e \<Rightarrow> Inl e
                 | Inr segments \<Rightarrow>
                     if n_bins env < 0 then Inl ValueError
                     else sensor_rows
                            (\<lambda>ray_idx.
                               ray_reading U (sensor_range env) (robot_x, robot_y)
                                 (ray_ori ori (sensor_span env) (n_bins env) ray_idx) segments)
                            [0..<nat (n_bins env)])))"

subsection \<open>Observations\<close>

text \<open>
  \<open>_get_obs\<close>: the concatenation of the view, the (possibly spliced) observation of the
  wrapped model, the flattened sensor readings and \<open>[t * 0.001]\<close>.
\<close>

definition get_obs ::
  "('w, 'act, 'info) model \<Rightarrow> utils \<Rightarrow> 'w ant_maze_env \<Rightarrow> error + real list" where
  "get_obs M U env =
     (case wrapped_env env of
        None \<Rightarrow> Inl AttributeError
      | Some w \<Rightarrow>
          (let wrapped_obs = wrapped_get_obs M w;
               view =
                 (if top_down_view env
                  then map (\<lambda>px. real px / 255.0) (render M (image_size env) (image_size env) w)
                  else []);
               wrapped_obs' =
                 (if observe_blocks env
                  then take 3 wrapped_obs @
                       concat (map (\<lambda>(block_name, block_type).
                                 (case get_body_com M block_name w of (x, y, z) \<Rightarrow> [x, y, z]))
                               (movable_blocks env)) @
                       drop 3 wrapped_obs
                  else wrapped_obs)
           in case get_range_sensor_obs M U env of
                Inl e \<Rightarrow> Inl e
              | Inr range_sensor_obs \<Rightarrow>
                  (case t env of
                     None \<Rightarrow> Inl AttributeError
                   | Some steps \<Rightarrow>
                       Inr (view @ wrapped_obs' @ concat range_sensor_obs @
                            [real_of_int steps * 0.001]))))"

text \<open>A bound of a box: a number or an infinity.\<close>

datatype bound = NegInf | Finite real | PosInf

record box =
  low :: "bound list"
  high :: "bound list"

fun neg_bound :: "bound \<Rightarrow> bound" where
  "neg_bound NegInf = PosInf"
| "neg_bound (Finite x) = Finite (- x)"
| "neg_bound PosInf = NegInf"

text \<open>The property \<open>observation_space\<close>: one call of \<open>_get_obs\<close> gives the shape.\<close>

definition observation_space ::
  "('w, 'act, 'info) model \<Rightarrow> utils \<Rightarrow> 'w ant_maze_env \<Rightarrow> error + box" where
  "observation_space M U env =
     (case get_obs M U env of
        Inl e \<Rightarrow> Inl e
      | Inr obs \<Rightarrow>
          (let shape = length obs;
               high = replicate shape PosInf;
               low = map neg_bound high
           in Inr \<lparr>low = low, high = high\<rparr>))"

subsection \<open>Reset and step\<close>

text \<open>
  \<open>random.choice(seq)\<close> is \<open>seq[k]\<close> for an index \<open>k\<close> that the generator draws below
  \<open>len(seq)\<close>; the draw is an argument of the model.
\<close>

definition choice :: "'a list \<Rightarrow> nat \<Rightarrow> error + 'a" where
  "choice seq k = (if k < length seq then Inr (seq ! k) else Inl IndexError)"

text \<open>\<open>reset\<close>: the first observation and the object after the call.\<close>

definition reset ::
  "('w, 'act, 'info) model \<Rightarrow> utils \<Rightarrow> nat \<Rightarrow> 'w ant_maze_env \<Rightarrow>
   error + real list \<times> 'w ant_maze_env" where
  "reset M U draw env =
     (let env1 = env\<lparr>t := Some 0, trajectory := Some []\<rparr>
      in case wrapped_env env1 of
           None \<Rightarrow> Inl AttributeError
         | Some w \<Rightarrow>
             (let w1 = wrapped_reset M w
              in case (if length (init_positions env1) > 1
                       then (case choice (init_positions env1) draw of
                               Inl e \<Rightarrow> Inl e
                             | Inr xy \<Rightarrow> Inr (set_xy M xy w1))
                       else Inr w1) of
                   Inl e \<Rightarrow> Inl e
                 | Inr w2 \<Rightarrow>
                     (let env2 = env1\<lparr>wrapped_env := Some w2\<rparr>
                      in case get_obs M U env2 of
                           Inl e \<Rightarrow> Inl e
                         | Inr obs \<Rightarrow> Inr (obs, env2))))"

text \<open>
  The draw itself. \<open>random.choice(seq)\<close> of the standard library is
  \<open>seq[self._randbelow(len(seq))]\<close>, and \<open>_randbelow(n)\<close> returns each of the indices
  \<open>0, \<dots>, n - 1\<close> with the same probability \<open>1 / n\<close> (it draws \<open>getrandbits\<close> until the
  value is below \<open>n\<close>; the generator is taken as ideal). A finite distribution is the list
  of its outcomes with their weights.
\<close>

type_synonym 'a distribution = "('a \<times> real) list"

definition randbelow :: "nat \<Rightarrow> nat distribution" where
  "randbelow n = map (\<lambda>k. (k, 1 / real n)) [0..<n]"

text \<open>The probability of an event is the sum of the weights of the outcomes in it.\<close>

definition prob :: "'a distribution \<Rightarrow> ('a \<Rightarrow> bool) \<Rightarrow> real" where
  "prob d event = sum_list (map snd (filter (\<lambda>(x, p). event x) d))"

text \<open>
  \<open>reset\<close> with the generator: \<open>random.choice\<close> is called, and an index drawn, only when
  there is more than one start position; otherwise the call has one outcome.
\<close>

definition reset_random ::
  "('w, 'act, 'info) model \<Rightarrow> utils \<Rightarrow> 'w ant_maze_env \<Rightarrow>
   (error + real list \<times> 'w ant_maze_env) distribution" where
  "reset_random M U env =
     (if length (init_positions env) > 1
      then map (\<lambda>(k, p). (reset M U k env, p)) (randbelow (length (init_positions env)))
      else [(reset M U 0 env, 1)])"

text \<open>The event that \<open>reset\<close> returns and leaves the agent at a given position.\<close>

definition starts_at ::
  "('w, 'act, 'info) model \<Rightarrow> point \<Rightarrow> error + real list \<times> 'w ant_maze_env \<Rightarrow> bool" where
  "starts_at M offset result =
     (case result of
        Inl e \<Rightarrow> False
      | Inr (obs, env) \<Rightarrow> map_option (get_xy M) (wrapped_env env) = Some offset)"

text \<open>\<open>_is_in_collision\<close>: returns \<open>True\<close> at the first wall cell whose square holds the
  position.\<close>

fun is_in_collision_scan ::
  "cell list list \<Rightarrow> real \<Rightarrow> real \<Rightarrow> real \<Rightarrow> point \<Rightarrow> (nat \<times> nat) list \<Rightarrow> error + bool" where
  "is_in_collision_scan grid size_scaling torso_x torso_y pos [] = Inr False"
| "is_in_collision_scan grid size_scaling torso_x torso_y pos ((i, j) # rest) =
     (case at_cell grid i j of
        Inl e \<Rightarrow> Inl e
      | Inr c \<Rightarrow>
          (case pos of (x, y) \<Rightarrow>
             if c = Num 1
             then (let minx = real j * size_scaling - size_scaling * 0.5 - torso_x;
                       maxx = real j * size_scaling + size_scaling * 0.5 - torso_x;
                       miny = real i * size_scaling - size_scaling * 0.5 - torso_y;
                       maxy = real i * size_scaling + size_scaling * 0.5 - torso_y
                   in if minx \<le> x \<and> x \<le> maxx \<and> miny \<le> y \<and> y \<le> maxy
                      then Inr True
                      else is_in_collision_scan grid size_scaling torso_x torso_y pos rest)
             else is_in_collision_scan grid size_scaling torso_x torso_y pos rest))"

definition is_in_collision :: "'w ant_maze_env \<Rightarrow> point \<Rightarrow> error + bool" where
  "is_in_collision env pos =
     is_in_collision_scan (MAZE_STRUCTURE env) (MAZE_SIZE_SCALING env)
       (init_torso_x env) (init_torso_y env) pos (grid_cells (MAZE_STRUCTURE env))"

text \<open>
  \<open>step\<close>: the returned tuple and the object after the call. The simulator state after
  the wrapped step is \<open>w2\<close>; under manual collision it is put back to \<open>old_pos\<close> when
  \<open>new_pos\<close> is in collision.
\<close>

definition step ::
  "('w, 'act, 'info) model \<Rightarrow> utils \<Rightarrow> 'act \<Rightarrow> 'w ant_maze_env \<Rightarrow>
   error + (real list \<times> real \<times> bool \<times> 'info) \<times> 'w ant_maze_env" where
  "step M U action env =
     (case wrapped_env env of
        None \<Rightarrow> Inl AttributeError
      | Some w \<Rightarrow>
          (let w1 = update_cam M w
           in case t env of
                None \<Rightarrow> Inl AttributeError
              | Some steps \<Rightarrow>
                  (let env1 = env\<lparr>t := Some (steps + 1), wrapped_env := Some w1\<rparr>
                   in case (if manual_collision env1
                            then (let old_pos = get_xy M w1
                                  in case wrapped_step M action w1 of
                                       ((inner_next_obs, inner_reward, done, info), w2) \<Rightarrow>
                                         (let new_pos = get_xy M w2
                                          in case is_in_collision env1 new_pos of
                                               Inl e \<Rightarrow> Inl e
                                             | Inr collided \<Rightarrow>
                                                 Inr ((inner_reward, done, info),
                                                      (if collided then set_xy M old_pos w2
                                                       else w2))))
                            else (case wrapped_step M action w1 of
                                    ((inner_next_obs, inner_reward, done, info), w2) \<Rightarrow>
                                      Inr ((inner_reward, done, info), w2))) of
                        Inl e \<Rightarrow> Inl e
                      | Inr ((inner_reward, done, info), w3) \<Rightarrow>
                          (let env2 = env1\<lparr>wrapped_env := Some w3\<rparr>
                           in case get_obs M U env2 of
                                Inl e \<Rightarrow> Inl e
                              | Inr next_obs \<Rightarrow>
                                  (let done = False
                                   in Inr ((next_obs, inner_reward, done, info), env2))))))"

subsection \<open>A sample instance\<close>

text \<open>
  Modelled from the spec: the module \<open>maze_env_utils\<close> is missing from the sources. The
  spec names the movable-block variants as combinations of the slide axes and spin, with
  a spin-capable variant that also slides in x and y; the sample below numbers the tags
  \<open>X, Y, Z, XY, XZ, YZ, XYZ, SpinXY\<close> from 11 to 18. Its ray casting only follows rays of
  angle 0 (along the positive x axis) onto vertical segments, and its distance adds the
  absolute differences of the coordinates, which is the Euclidean distance along such a
  ray. The instance is used to evaluate the model on concrete inputs; the
  general theorems do not depend on it.
\<close>

definition sample_intersect :: "point \<times> real \<Rightarrow> segment \<Rightarrow> point option" where
  "sample_intersect ray seg =
     (case ray of ((px, py), angle) \<Rightarrow>
        (case seg of ((x1, y1), (x2, y2)) \<Rightarrow>
           if angle = 0 \<and> x1 = x2 \<and> px \<le> x1 \<and> min y1 y2 \<le> py \<and> py \<le> max y1 y2
           then Some (x1, py) else None))"

definition sample_distance :: "point \<Rightarrow> point \<Rightarrow> real" where
  "sample_distance p q = \<bar>fst p - fst q\<bar> + \<bar>snd p - snd q\<bar>"

definition sample_utils :: utils where
  "sample_utils =
     \<lparr>Move_SpinXY = Num 18,
      can_move = (\<lambda>c. c \<in> set (map Num [11, 12, 13, 14, 15, 16, 17, 18])),
      can_move_x = (\<lambda>c. c \<in> set (map Num [11, 14, 15, 17, 18])),
      can_move_y = (\<lambda>c. c \<in> set (map Num [12, 14, 16, 17, 18])),
      can_move_z = (\<lambda>c. c \<in> set (map Num [13, 15, 16, 17])),
      can_spin = (\<lambda>c. c = Num 18),
      ray_segment_intersect = sample_intersect,
      point_distance = sample_distance\<rparr>"

text \<open>
  A sample of the wrapped model: the simulator state is the position of the torso, an
  action is a displacement, every step reports reward 1 and \<open>done = True\<close>, and every
  movable block rests at \<open>(2, 0, 0)\<close>.
\<close>

definition sample_model :: "(point, point, string) model" where
  "sample_model =
     \<lparr>model_cls = (\<lambda>tree. Some (0, 0)),
      update_cam = (\<lambda>w. w),
      wrapped_step = (\<lambda>action w.
        (([fst w + fst action, snd w + snd action, 0, 0], 1, True, ''info''),
         (fst w + fst action, snd w + snd action))),
      wrapped_reset = (\<lambda>w. (0, 0)),
      get_xy = (\<lambda>w. w),
      set_xy = (\<lambda>xy w. xy),
      get_body_com = (\<lambda>body_name w.
        if body_name = ''torso'' then (fst w, snd w, 0) else (2, 0, 0)),
      get_ori = (\<lambda>w. 0),
      wrapped_get_obs = (\<lambda>w. [fst w, snd w, 0, 0]),
      render = (\<lambda>width height w. [255])\<rparr>"

text \<open>A sample model file: one named geom below the torso, an empty \<open>worldbody\<close>.\<close>

definition sample_tree :: xml_tree where
  "sample_tree =
     \<lparr>torso_attrib = [(''name'', Text ''torso''), (''pos'', Text ''0 0 0.75'')],
      torso_geoms = [[(''name'', Text ''torso_geom'')]],
      default_geom_attrib = [],
      worldbody = []\<rparr>"

text \<open>Sample arguments: one row with a wall, the robot, a block that moves in x, y
  and z, and a wall; cells of size 2, one ray of span 0, sensor range \<open>3 * 2\<close>.\<close>

definition sample_args :: args where
  "sample_args =
     \<lparr>arg_structure = [[Num 1, Str ''r'', Num 17, Num 1]],
      arg_maze_height = 0.5,
      arg_maze_size_scaling = 2,
      arg_n_bins = 1,
      arg_sensor_range = 3,
      arg_sensor_span = 0,
      arg_observe_blocks = True,
      arg_put_spin_near_agent = False,
      arg_top_down_view = True,
      arg_image_size = 1,
      arg_manual_collision = True\<rparr>"

text \<open>The object that the constructor builds from the sample arguments.\<close>

definition sample_env :: "point ant_maze_env" where
  "sample_env =
     \<lparr>MAZE_HEIGHT = 0.5,
      MAZE_SIZE_SCALING = 2,
      MAZE_STRUCTURE = [[Num 1, Str ''r'', Num 17, Num 1]],
      n_bins = 1,
      sensor_range = 6,
      sensor_span = 0,
      observe_blocks = True,
      put_spin_near_agent = False,
      top_down_view = True,
      manual_collision = True,
      image_size = 1,
      elevated = False,
      blocks = True,
      init_torso_x = 2,
      init_torso_y = 0,
      init_positions = [(0, 0)],
      movable_blocks = [(''movable_0_2'', Num 17)],
      t = None,
      trajectory = None,
      wrapped_env = Some (0, 0)\<rparr>"

subsection \<open>Statements of the specification\<close>

text \<open>
  The position lies within the bounds
  \<open>[center - 0.5 * size_scaling, center + 0.5 * size_scaling]\<close> of some wall cell, where
  the center of cell \<open>(i, j)\<close> is \<open>(j * size_scaling - origin_x, i * size_scaling - origin_y)\<close>.
\<close>

definition within_wall_bounds :: "'w ant_maze_env \<Rightarrow> point \<Rightarrow> bool" where
  "within_wall_bounds env pos =
     (case pos of (x, y) \<Rightarrow>
        list_ex (\<lambda>i. list_ex (\<lambda>j.
            MAZE_STRUCTURE env ! i ! j = Num 1 \<and>
            (let center_x = real j * MAZE_SIZE_SCALING env - init_torso_x env;
                 center_y = real i * MAZE_SIZE_SCALING env - init_torso_y env
             in center_x - 0.5 * MAZE_SIZE_SCALING env \<le> x \<and>
                x \<le> center_x + 0.5 * MAZE_SIZE_SCALING env \<and>
                center_y - 0.5 * MAZE_SIZE_SCALING env \<le> y \<and>
                y \<le> center_y + 0.5 * MAZE_SIZE_SCALING env))
          [0..<length (MAZE_STRUCTURE env ! i)])
        [0..<length (MAZE_STRUCTURE env)])"

text \<open>The segment list of the sample object with the robot at the origin.\<close>

definition sample_segments :: "(segment \<times> cell) list" where
  "sample_segments =
     [(((- 3, - 1), (- 1, - 1)), Num 1), (((- 1, - 1), (- 1, 1)), Num 1),
      (((- 1, 1), (- 3, 1)), Num 1), (((- 3, 1), (- 3, - 1)), Num 1),
      (((3, - 1), (5, - 1)), Num 1), (((5, - 1), (5, 1)), Num 1),
      (((5, 1), (3, 1)), Num 1), (((3, 1), (3, - 1)), Num 1),
      (((1, - 1), (3, - 1)), Num 17), (((3, - 1), (3, 1)), Num 17),
      (((3, 1), (1, 1)), Num 17), (((1, 1), (1, - 1)), Num 17)]"

text \<open>The object built from the sample arguments with two robot-start cells.\<close>

definition sample_env2 :: "point ant_maze_env" where
  "sample_env2 =
     sample_env\<lparr>MAZE_STRUCTURE := [[Str ''r'', Num 0, Str ''r'']],
                blocks := False,
                init_torso_x := 0,
                init_positions := [(0, 0), (4, 0)],
                movable_blocks := []\<rparr>"

text \<open>
  The geoms of an element and of everything below it, in document order (what
  \<open>iter('geom')\<close> lists), the \<open>name\<close> attribute of an element, and the names of all geoms
  of a list of elements.
\<close>

fun geoms_of :: "element \<Rightarrow> element list" where
  "geoms_of (Element tag attrib children) =
     (if tag = ''geom'' then [Element tag attrib children] else []) @
     concat (map geoms_of children)"

fun name_of :: "element \<Rightarrow> attr option" where
  "name_of (Element tag attrib children) = map_of attrib ''name''"

definition geom_names :: "element list \<Rightarrow> attr option list" where
  "geom_names elements = map name_of (concat (map geoms_of elements))"

text \<open>A model file in which two geoms of the torso share a name and \<open>worldbody\<close> already
  holds a geom called \<open>block_0_0\<close>.\<close>

definition dup_tree :: xml_tree where
  "dup_tree =
     sample_tree
       \<lparr>torso_geoms := [[(''name'', Text ''aux_geom'')], [(''name'', Text ''aux_geom'')]],
        worldbody := [Element ''geom'' [(''name'', Text ''block_0_0'')] []]\<rparr>"

text \<open>Sample arguments with a wall next to the robot and \<open>put_spin_near_agent\<close> set.\<close>

definition spin_args :: args where
  "spin_args =
     sample_args\<lparr>arg_structure := [[Num 1, Str ''r'']], arg_put_spin_near_agent := True\<rparr>"

text \<open>The names that the cells of a set can give to their geoms.\<close>

definition cell_names :: "(nat \<times> nat) set \<Rightarrow> attr option set" where
  "cell_names V =
     (\<lambda>(i, j). Some (Text (cell_name ''elevated_'' i j))) ` V \<union>
     (\<lambda>(i, j). Some (Text (cell_name ''block_'' i j))) ` V"

section \<open>Properties\<close>

subsection \<open>Walking the grid\<close>

lemma find_robot_scan_find:
  assumes "\<forall>(i, j) \<in> set ps. i < length grid \<and> j < length (grid ! i)"
  shows "find_robot_scan grid s ps =
     (case find (\<lambda>(i, j). grid ! i ! j = Str ''r'') ps of
        None \<Rightarrow> Inl AssertionError
      | Some (i, j) \<Rightarrow> Inr (real j * s, real i * s))"
  using assms by (induction ps) (auto simp: at_cell_def)

lemma find_all_robots_scan_filter:
  assumes "\<forall>(i, j) \<in> set ps. i < length grid \<and> j < length (grid ! i)"
  shows "find_all_robots_scan grid s ps acc =
     Inr (acc @ map (\<lambda>(i, j). (real j * s, real i * s))
                   (filter (\<lambda>(i, j). grid ! i ! j = Str ''r'') ps))"
  using assms by (induction ps arbitrary: acc) (auto simp: at_cell_def)

lemma grid_cells_in_bounds:
  assumes "rectangular grid"
  shows "\<forall>(i, j) \<in> set (grid_cells grid). i < length grid \<and> j < length (grid ! i)"
  using assms by (auto simp: grid_cells_def rectangular_def list_all_iff)

lemma distinct_grid_cells: "distinct (grid_cells grid)"
  by (simp add: grid_cells_def distinct_product)

lemma set_grid_cells: "set (grid_cells grid) = {0..<length grid} \<times> {0..<ncols grid}"
  by (simp add: grid_cells_def)

lemma map_grid_cells:
  assumes "rectangular grid"
  shows "map (\<lambda>(i, j). grid ! i ! j) (grid_cells grid) = concat grid"
proof -
  have row: "map (\<lambda>j. grid ! i ! j) [0..<ncols grid] = grid ! i" if "i < length grid" for i
  proof -
    from that assms have "length (grid ! i) = ncols grid"
      by (simp add: rectangular_def list_all_length)
    then show ?thesis by (metis map_nth)
  qed
  have "map (\<lambda>(i, j). grid ! i ! j) (grid_cells grid) =
        concat (map (\<lambda>i. map (\<lambda>j. grid ! i ! j) [0..<ncols grid]) [0..<length grid])"
    by (simp add: grid_cells_def List.product_concat_map map_concat comp_def)
  also have "\<dots> = concat (map (\<lambda>i. grid ! i) [0..<length grid])"
  proof -
    have "map (\<lambda>i. map (\<lambda>j. grid ! i ! j) [0..<ncols grid]) [0..<length grid] =
          map (\<lambda>i. grid ! i) [0..<length grid]"
      by (rule map_cong) (simp_all add: row)
    then show ?thesis by (rule arg_cong)
  qed
  also have "\<dots> = concat grid"
    by (simp add: map_nth)
  finally show ?thesis .
qed

lemma count_list_filter: "count_list xs x = length (filter (\<lambda>y. y = x) xs)"
  by (induction xs) auto

lemma robot_cells_count:
  assumes "rectangular grid"
  shows "length (filter (\<lambda>(i, j). grid ! i ! j = Str ''r'') (grid_cells grid)) =
         count_list (concat grid) (Str ''r'')"
proof -
  have "count_list (concat grid) (Str ''r'') =
        length (filter (\<lambda>y. y = Str ''r'') (map (\<lambda>(i, j). grid ! i ! j) (grid_cells grid)))"
    by (simp add: count_list_filter map_grid_cells [OF assms])
  also have "\<dots> = length (filter (\<lambda>(i, j). grid ! i ! j = Str ''r'') (grid_cells grid))"
    by (simp add: filter_map comp_def case_prod_unfold)
  finally show ?thesis by simp
qed

lemma filter_single:
  assumes "length (filter P ps) = 1" and "x \<in> set ps" and "P x"
  shows "filter P ps = [x]"
proof -
  from assms(1) obtain y where y: "filter P ps = [y]"
    by (cases "filter P ps") auto
  from assms(2,3) have "x \<in> set (filter P ps)" by simp
  with y show ?thesis by simp
qed

lemma find_filter: "find P ps = (case filter P ps of [] \<Rightarrow> None | x # _ \<Rightarrow> Some x)"
  by (induction ps) auto

lemma find_robot_rect:
  assumes "rectangular grid"
  shows "find_robot grid s =
     (case filter (\<lambda>(i, j). grid ! i ! j = Str ''r'') (grid_cells grid) of
        [] \<Rightarrow> Inl AssertionError
      | (i, j) # _ \<Rightarrow> Inr (real j * s, real i * s))"
  unfolding find_robot_def
  by (simp add: find_robot_scan_find [OF grid_cells_in_bounds [OF assms]] find_filter
           split: list.splits)

lemma find_all_robots_rect:
  assumes "rectangular grid"
  shows "find_all_robots grid s =
     Inr (map (\<lambda>(i, j). (real j * s, real i * s))
           (filter (\<lambda>(i, j). grid ! i ! j = Str ''r'') (grid_cells grid)))"
  unfolding find_all_robots_def
  by (simp add: find_all_robots_scan_filter [OF grid_cells_in_bounds [OF assms]])

text \<open>
  Claim C9. In a two-dimensional grid whose only robot-start cell is at row \<open>i\<close>,
  column \<open>j\<close>, \<open>_find_robot\<close> returns \<open>(j * size_scaling, i * size_scaling)\<close> and
  \<open>_find_all_robots\<close> returns the list of exactly that coordinate. In a grid without a
  robot-start cell \<open>_find_robot\<close> raises its \<open>AssertionError\<close>, and so does the
  constructor, whatever its other arguments are.
\<close>

theorem find_robot_single_start:
  assumes "rectangular grid"
  shows "(i < length grid \<and> j < ncols grid \<and> grid ! i ! j = Str ''r'' \<and>
          count_list (concat grid) (Str ''r'') = 1 \<longrightarrow>
            find_robot grid s = Inr (real j * s, real i * s) \<and>
            find_all_robots grid s = Inr [(real j * s, real i * s)]) \<and>
         (Str ''r'' \<notin> set (concat grid) \<longrightarrow>
            find_robot grid s = Inl AssertionError \<and>
            AntMazeEnv_init M U (a\<lparr>arg_structure := grid, arg_maze_size_scaling := s\<rparr>) tree
              = Inl AssertionError)"
proof (intro conjI impI)
  assume h: "i < length grid \<and> j < ncols grid \<and> grid ! i ! j = Str ''r'' \<and>
             count_list (concat grid) (Str ''r'') = 1"
  let ?P = "\<lambda>(i, j). grid ! i ! j = Str ''r''"
  from h have "length (filter ?P (grid_cells grid)) = 1"
    by (simp add: robot_cells_count [OF assms])
  moreover from h have "(i, j) \<in> set (grid_cells grid)" by (simp add: set_grid_cells)
  moreover from h have "?P (i, j)" by simp
  ultimately have f: "filter ?P (grid_cells grid) = [(i, j)]" by (rule filter_single)
  show "find_robot grid s = Inr (real j * s, real i * s)"
    by (simp add: find_robot_rect [OF assms] f)
  show "find_all_robots grid s = Inr [(real j * s, real i * s)]"
    by (simp add: find_all_robots_rect [OF assms] f)
next
  assume h: "Str ''r'' \<notin> set (concat grid)"
  let ?P = "\<lambda>(i, j). grid ! i ! j = Str ''r''"
  from h have "count_list (concat grid) (Str ''r'') = 0" by simp
  then have "filter ?P (grid_cells grid) = []"
    using robot_cells_count [OF assms] by simp
  then show r: "find_robot grid s = Inl AssertionError"
    by (simp add: find_robot_rect [OF assms])
  show "AntMazeEnv_init M U (a\<lparr>arg_structure := grid, arg_maze_size_scaling := s\<rparr>) tree
              = Inl AssertionError"
    by (simp add: AntMazeEnv_init_def r)
qed


theorem find_robot_single_start_witness:
  "rectangular [[Num 1, Str ''r'', Num 17, Num 1]] \<and>
   find_robot [[Num 1, Str ''r'', Num 17, Num 1]] 2 = Inr (2, 0) \<and>
   find_all_robots [[Num 1, Str ''r'', Num 17, Num 1]] 2 = Inr [(2, 0)] \<and>
   rectangular [[Num 1, Num 0]] \<and>
   find_robot [[Num 1, Num 0]] 2 = Inl AssertionError \<and>
   AntMazeEnv_init sample_model sample_utils
     (sample_args\<lparr>arg_structure := [[Num 1, Num 0]], arg_maze_size_scaling := 2\<rparr>)
     sample_tree = Inl AssertionError"
proof -
  have r1: "rectangular [[Num 1, Str ''r'', Num 17, Num 1]]"
    by (simp add: rectangular_def ncols_def)
  have r2: "rectangular [[Num 1, Num 0]]"
    by (simp add: rectangular_def ncols_def)
  show ?thesis
    using find_robot_single_start [OF r1, of 0 1 2]
      find_robot_single_start [OF r2, of 0 0 2 sample_model sample_utils sample_args sample_tree]
    by (simp add: r1 r2 ncols_def)
qed

subsection \<open>Stepping\<close>

lemma is_in_collision_scan_ex:
  assumes "\<forall>(i, j) \<in> set ps. i < length grid \<and> j < length (grid ! i)"
  shows "is_in_collision_scan grid s tx ty (x, y) ps =
     Inr (list_ex (\<lambda>(i, j). grid ! i ! j = Num 1 \<and>
            real j * s - s * 0.5 - tx \<le> x \<and> x \<le> real j * s + s * 0.5 - tx \<and>
            real i * s - s * 0.5 - ty \<le> y \<and> y \<le> real i * s + s * 0.5 - ty) ps)"
  using assms
proof (induction ps)
  case Nil
  then show ?case by simp
next
  case (Cons p ps)
  obtain i j where p: "p = (i, j)" by (cases p)
  from Cons.prems p have b: "at_cell grid i j = Inr (grid ! i ! j)"
    by (simp add: at_cell_def)
  from Cons have ih: "is_in_collision_scan grid s tx ty (x, y) ps =
     Inr (list_ex (\<lambda>(i, j). grid ! i ! j = Num 1 \<and>
            real j * s - s * 0.5 - tx \<le> x \<and> x \<le> real j * s + s * 0.5 - tx \<and>
            real i * s - s * 0.5 - ty \<le> y \<and> y \<le> real i * s + s * 0.5 - ty) ps)"
    by simp
  show ?case
    unfolding p by (auto simp: b ih Let_def)
qed

lemma rectangular_row: "rectangular grid \<Longrightarrow> i < length grid \<Longrightarrow> length (grid ! i) = ncols grid"
  by (simp add: rectangular_def list_all_length)

lemma list_ex_grid_cells:
  assumes "rectangular grid"
  shows "list_ex (\<lambda>(i, j). Q i j) (grid_cells grid) =
         list_ex (\<lambda>i. list_ex (\<lambda>j. Q i j) [0..<length (grid ! i)]) [0..<length grid]"
proof -
  have "list_ex (\<lambda>(i, j). Q i j) (grid_cells grid) =
        (\<exists>i < length grid. \<exists>j < ncols grid. Q i j)"
    unfolding list_ex_iff set_grid_cells by fastforce
  also have "\<dots> = (\<exists>i < length grid. \<exists>j < length (grid ! i). Q i j)"
    by (simp add: rectangular_row [OF assms] cong: conj_cong)
  also have "\<dots> = list_ex (\<lambda>i. list_ex (\<lambda>j. Q i j) [0..<length (grid ! i)]) [0..<length grid]"
    unfolding list_ex_iff by fastforce
  finally show ?thesis .
qed

lemma is_in_collision_rect:
  assumes "rectangular (MAZE_STRUCTURE env)"
  shows "is_in_collision env pos = Inr (within_wall_bounds env pos)"
proof -
  obtain x y where pos: "pos = (x, y)" by (cases pos)
  show ?thesis
    unfolding is_in_collision_def pos within_wall_bounds_def
    by (simp add: is_in_collision_scan_ex [OF grid_cells_in_bounds [OF assms]]
          list_ex_grid_cells [OF assms] Let_def algebra_simps)
qed

text \<open>
  Claim C1. In a step with manual collision enabled, let \<open>old_pos\<close> be the position read
  before the wrapped step and \<open>new_pos\<close> the one read after it. If \<open>new_pos\<close> lies within
  the bounds of some wall cell, the simulator is left in the state that \<open>set_xy(old_pos)\<close>
  produces (so its position is \<open>old_pos\<close> whenever \<open>get_xy\<close> reads back what \<open>set_xy\<close>
  wrote); otherwise it is left as the wrapped step produced it. The returned observation
  is the one computed in that final state.
\<close>

theorem step_manual_collision:
  assumes "manual_collision env"
    and "rectangular (MAZE_STRUCTURE env)"
    and "wrapped_env env = Some w"
    and "step M U action env = Inr ((next_obs, reward, done, info), env')"
  shows "(let w1 = update_cam M w;
              old_pos = get_xy M w1;
              w2 = snd (wrapped_step M action w1);
              new_pos = get_xy M w2
          in (within_wall_bounds env new_pos \<longrightarrow>
                wrapped_env env' = Some (set_xy M old_pos w2) \<and>
                ((\<forall>xy v. get_xy M (set_xy M xy v) = xy) \<longrightarrow>
                   map_option (get_xy M) (wrapped_env env') = Some old_pos)) \<and>
             (\<not> within_wall_bounds env new_pos \<longrightarrow> wrapped_env env' = Some w2) \<and>
             get_obs M U env' = Inr next_obs)"
proof -
  obtain steps where ts: "t env = Some steps"
    using assms(3,4) by (cases "t env") (auto simp: step_def Let_def)
  define env1 where "env1 = env\<lparr>t := Some (steps + 1), wrapped_env := Some (update_cam M w)\<rparr>"
  have rect1: "rectangular (MAZE_STRUCTURE env1)" using assms(2) by (simp add: env1_def)
  have wb: "within_wall_bounds env1 pos = within_wall_bounds env pos" for pos
    by (simp add: within_wall_bounds_def env1_def)
  have col: "is_in_collision env1 pos = Inr (within_wall_bounds env pos)" for pos
    using is_in_collision_rect [OF rect1] wb by simp
  obtain r w2 where ws: "wrapped_step M action (update_cam M w) = (r, w2)"
    by (cases "wrapped_step M action (update_cam M w)")
  obtain o1 r1 d1 i1 where r: "r = (o1, r1, d1, i1)" by (cases r)
  define w3 where "w3 = (if within_wall_bounds env (get_xy M w2)
                         then set_xy M (get_xy M (update_cam M w)) w2 else w2)"
  from assms(1,3,4) ts
  have o: "get_obs M U (env1\<lparr>wrapped_env := Some w3\<rparr>) = Inr next_obs"
    and e: "env' = env1\<lparr>wrapped_env := Some w3\<rparr>"
    by (auto simp: step_def Let_def ws r col [unfolded env1_def] w3_def env1_def
             split: sum.splits if_splits)
  from e have w': "wrapped_env env' = Some w3" by simp
  have law: "get_xy M (set_xy M (get_xy M (update_cam M w)) w2) = get_xy M (update_cam M w)"
    if "\<forall>xy v. get_xy M (set_xy M xy v) = xy"
    using that by blast
  show ?thesis
    using o law unfolding Let_def ws snd_conv w' e [symmetric]
    by (auto simp: w3_def simp del: split_paired_All)
qed

theorem step_manual_collision_witness:
  "manual_collision (sample_env\<lparr>t := Some 0\<rparr>) \<and>
   rectangular (MAZE_STRUCTURE (sample_env\<lparr>t := Some 0\<rparr>)) \<and>
   wrapped_env (sample_env\<lparr>t := Some 0\<rparr>) = Some (0, 0) \<and>
   step sample_model sample_utils (3.5, 0) (sample_env\<lparr>t := Some 0\<rparr>) =
     Inr (([1, 0, 0, 0, 2, 0, 0, 0, 0, 0, 5 / 6, 1 / 1000], 1, False, ''info''),
          sample_env\<lparr>t := Some 1\<rparr>) \<and>
   within_wall_bounds (sample_env\<lparr>t := Some 0\<rparr>) (3.5, 0) \<and>
   map_option (get_xy sample_model) (wrapped_env (sample_env\<lparr>t := Some 1\<rparr>)) = Some (0, 0) \<and>
   get_obs sample_model sample_utils (sample_env\<lparr>t := Some 1\<rparr>) =
     Inr [1, 0, 0, 0, 2, 0, 0, 0, 0, 0, 5 / 6, 1 / 1000] \<and>
   step sample_model sample_utils (0.5, 0) (sample_env\<lparr>t := Some 0\<rparr>) =
     Inr (([1, 1 / 2, 0, 0, 2, 0, 0, 0, 0, 0, 11 / 12, 1 / 1000], 1, False, ''info''),
          sample_env\<lparr>t := Some 1, wrapped_env := Some (0.5, 0)\<rparr>) \<and>
   \<not> within_wall_bounds (sample_env\<lparr>t := Some 0\<rparr>) (0.5, 0) \<and>
   get_obs sample_model sample_utils (sample_env\<lparr>t := Some 1, wrapped_env := Some (0.5, 0)\<rparr>) =
     Inr [1, 1 / 2, 0, 0, 2, 0, 0, 0, 0, 0, 11 / 12, 1 / 1000]"
proof -
  have m: "manual_collision (sample_env\<lparr>t := Some 0\<rparr>)"
    by (simp add: sample_env_def)
  have r: "rectangular (MAZE_STRUCTURE (sample_env\<lparr>t := Some 0\<rparr>))"
    by (simp add: sample_env_def rectangular_def ncols_def)
  have w: "wrapped_env (sample_env\<lparr>t := Some 0\<rparr>) = Some (0, 0)"
    by (simp add: sample_env_def)
  have s1: "step sample_model sample_utils (3.5, 0) (sample_env\<lparr>t := Some 0\<rparr>) =
     Inr (([1, 0, 0, 0, 2, 0, 0, 0, 0, 0, 5 / 6, 1 / 1000], 1, False, ''info''),
          sample_env\<lparr>t := Some 1\<rparr>)"
    by code_simp
  have s2: "step sample_model sample_utils (0.5, 0) (sample_env\<lparr>t := Some 0\<rparr>) =
     Inr (([1, 1 / 2, 0, 0, 2, 0, 0, 0, 0, 0, 11 / 12, 1 / 1000], 1, False, ''info''),
          sample_env\<lparr>t := Some 1, wrapped_env := Some (0.5, 0)\<rparr>)"
    by code_simp
  have b1: "within_wall_bounds (sample_env\<lparr>t := Some 0\<rparr>) (3.5, 0)"
    by code_simp
  have b2: "\<not> within_wall_bounds (sample_env\<lparr>t := Some 0\<rparr>) (0.5, 0)"
    by code_simp
  have law: "\<forall>xy v. get_xy sample_model (set_xy sample_model xy v) = xy"
    by (simp add: sample_model_def)
  have c1: "map_option (get_xy sample_model) (wrapped_env (sample_env\<lparr>t := Some 1\<rparr>)) = Some (0, 0) \<and>
     get_obs sample_model sample_utils (sample_env\<lparr>t := Some 1\<rparr>) =
       Inr [1, 0, 0, 0, 2, 0, 0, 0, 0, 0, 5 / 6, 1 / 1000]"
    using step_manual_collision [OF m r w s1] b1 law
    by (simp add: sample_model_def Let_def del: split_paired_All)
  have c2: "get_obs sample_model sample_utils
       (sample_env\<lparr>t := Some 1, wrapped_env := Some (0.5, 0)\<rparr>) =
     Inr [1, 1 / 2, 0, 0, 2, 0, 0, 0, 0, 0, 11 / 12, 1 / 1000]"
    using step_manual_collision [OF m r w s2]
    by (simp add: Let_def)
  from m r w s1 s2 b1 b2 c1 c2 show ?thesis by blast
qed

text \<open>
  Claim C2. Whatever the manual-collision flag is and whatever \<open>done\<close> the wrapped step
  reports, the \<open>done\<close> that \<open>step\<close> returns is \<open>False\<close>, and the reward (and the info
  dictionary) it returns are the ones of the wrapped step.
\<close>

theorem step_done_reward:
  assumes "wrapped_env env = Some w"
    and "step M U action env = Inr ((next_obs, reward, done, info), env')"
  shows "done = False \<and>
         (case wrapped_step M action (update_cam M w) of
            ((inner_next_obs, inner_reward, inner_done, inner_info), w2) \<Rightarrow>
              reward = inner_reward \<and> info = inner_info)"
  using assms
  by (auto simp: step_def Let_def split: option.splits prod.splits sum.splits if_splits)


theorem step_done_reward_witness:
  "wrapped_env (sample_env\<lparr>t := Some 0, manual_collision := False\<rparr>) = Some (0, 0) \<and>
   step sample_model sample_utils (3.5, 0) (sample_env\<lparr>t := Some 0, manual_collision := False\<rparr>) =
     Inr (([1, 7 / 2, 0, 0, 2, 0, 0, 0, 3 / 4, 0, 0, 1 / 1000], 1, False, ''info''),
          sample_env\<lparr>t := Some 1, manual_collision := False, wrapped_env := Some (3.5, 0)\<rparr>) \<and>
   wrapped_step sample_model (3.5, 0) (update_cam sample_model (0, 0)) =
     (([7 / 2, 0, 0, 0], 1, True, ''info''), (7 / 2, 0)) \<and>
   False = False \<and> (1 :: real) = 1"
proof -
  have w: "wrapped_env (sample_env\<lparr>t := Some 0, manual_collision := False\<rparr>) = Some (0, 0)"
    by (simp add: sample_env_def)
  have s: "step sample_model sample_utils (3.5, 0)
       (sample_env\<lparr>t := Some 0, manual_collision := False\<rparr>) =
     Inr (([1, 7 / 2, 0, 0, 2, 0, 0, 0, 3 / 4, 0, 0, 1 / 1000], 1, False, ''info''),
          sample_env\<lparr>t := Some 1, manual_collision := False, wrapped_env := Some (3.5, 0)\<rparr>)"
    by code_simp
  have e: "wrapped_step sample_model (3.5, 0) (update_cam sample_model (0, 0)) =
     (([7 / 2, 0, 0, 0], 1, True, ''info''), (7 / 2, 0))"
    by (simp add: sample_model_def)
  from step_done_reward [OF w s] w s e show ?thesis by simp
qed

subsection \<open>The range sensor\<close>

lemma sensor_rows_Inr:
  "sensor_rows f ks = Inr rows \<Longrightarrow>
     length rows = length ks \<and> (\<forall>n < length ks. f (ks ! n) = Inr (rows ! n))"
proof (induction ks arbitrary: rows)
  case Nil
  then show ?case by simp
next
  case (Cons k ks)
  from Cons.prems obtain row rest where
    fk: "f k = Inr row" and r: "sensor_rows f ks = Inr rest" and rows: "rows = row # rest"
    by (auto split: sum.splits)
  from Cons.IH [OF r] have ih: "length rest = length ks"
    "\<And>n. n < length ks \<Longrightarrow> f (ks ! n) = Inr (rest ! n)" by auto
  show ?case
  proof (intro conjI allI impI)
    show "length rows = length (k # ks)" using ih(1) rows by simp
  next
    fix n assume "n < length (k # ks)"
    then show "f ((k # ks) ! n) = Inr (rows ! n)"
      using fk ih(2) rows by (cases n) auto
  qed
qed

lemma sensor_rows_total:
  "(\<forall>k \<in> set ks. \<exists>row. f k = Inr row) \<Longrightarrow> \<exists>rows. sensor_rows f ks = Inr rows"
  by (induction ks) auto

lemma length_write_channel: "length (write_channel row idx v) = length row"
  by (simp add: write_channel_def split: option.splits)

lemma ray_reading_length:
  "ray_reading U rng robot ori segments = Inr row \<Longrightarrow> length row = 3"
  by (auto simp: ray_reading_def Let_def length_write_channel split: list.splits if_splits)

lemma sort_key_head:
  assumes "sort_key f xs = h # rest"
  shows "h \<in> set xs" and "\<forall>x \<in> set xs. f h \<le> f x" and "find (\<lambda>x. f x = f h) xs = Some h"
proof -
  have "set (sort_key f xs) = set xs" by simp
  with assms show mem: "h \<in> set xs" by auto
  have "sorted (map f (sort_key f xs))" by (rule sorted_sort_key)
  with assms have "\<forall>x \<in> set rest. f h \<le> f x" by simp
  moreover have "set xs = insert h (set rest)"
    using assms by (metis list.simps(15) set_sort)
  ultimately show "\<forall>x \<in> set xs. f h \<le> f x" by auto
  have "filter (\<lambda>y. f y = f h) xs = filter (\<lambda>y. f y = f h) (sort_key f xs)"
    by (rule sort_key_stable [symmetric])
  also have "\<dots> = h # filter (\<lambda>y. f y = f h) rest" using assms by simp
  finally show "find (\<lambda>x. f x = f h) xs = Some h"
    by (induction xs) (auto split: if_splits)
qed

lemma Min_sort_key_head:
  assumes "sort_key f xs = h # rest"
  shows "Min (set (map f xs)) = f h"
proof (rule Min_eqI)
  show "finite (set (map f xs))" by simp
  show "\<And>y. y \<in> set (map f xs) \<Longrightarrow> f h \<le> y"
    using sort_key_head(2) [OF assms] by auto
  show "f h \<in> set (map f xs)"
    using sort_key_head(1) [OF assms] by auto
qed

lemma ray_segments_mem:
  assumes "h \<in> set (ray_segments U robot ori segments)"
  shows "\<exists>seg p. (seg, hit_type h) \<in> set segments \<and>
           ray_segment_intersect U (robot, ori) seg = Some p \<and>
           hit_distance h = point_distance U p robot"
proof -
  have "y \<in> set (List.map_filter g xs) \<Longrightarrow> \<exists>x \<in> set xs. g x = Some y" for g xs and y :: hit
    by (induction xs) (auto split: option.splits)
  from this [OF assms [unfolded ray_segments_def]]
  obtain x where x: "x \<in> set segments"
    and g: "(case x of (seg, seg_type) \<Rightarrow>
       (case ray_segment_intersect U (robot, ori) seg of
          None \<Rightarrow> None
        | Some p \<Rightarrow>
            Some \<lparr>hit_segment = seg, hit_type = seg_type, hit_ray_ori = ori,
                  hit_distance = point_distance U p robot\<rparr>)) = Some h"
    by blast
  obtain seg c where xs: "x = (seg, c)" by (cases x)
  from g obtain p where p: "ray_segment_intersect U (robot, ori) seg = Some p"
    and h: "h = \<lparr>hit_segment = seg, hit_type = c, hit_ray_ori = ori,
                  hit_distance = point_distance U p robot\<rparr>"
    unfolding xs by (cases "ray_segment_intersect U (robot, ori) seg") auto
  from x p h show ?thesis unfolding xs by (intro exI [of _ seg] exI [of _ p]) simp
qed

lemma ray_reading_cases:
  assumes "ray_reading U rng robot ori segments = Inr row"
  shows "(ray_segments U robot ori segments = [] \<longrightarrow> row = [0, 0, 0]) \<and>
         (ray_segments U robot ori segments \<noteq> [] \<longrightarrow>
            (\<exists>h. find (\<lambda>x. hit_distance x =
                          Min (set (map hit_distance (ray_segments U robot ori segments))))
                     (ray_segments U robot ori segments) = Some h \<and>
                 hit_distance h = Min (set (map hit_distance (ray_segments U robot ori segments))) \<and>
                 (hit_distance h \<le> rng \<longrightarrow> rng \<noteq> 0 \<and>
                    row = write_channel [0, 0, 0] (channel U (hit_type h))
                            ((rng - hit_distance h) / rng)) \<and>
                 (\<not> hit_distance h \<le> rng \<longrightarrow> row = [0, 0, 0])))"
proof (cases "ray_segments U robot ori segments = []")
  case True
  with assms show ?thesis by (simp add: ray_reading_def)
next
  case False
  then have "sort_key hit_distance (ray_segments U robot ori segments) \<noteq> []"
    by (metis length_sort length_0_conv)
  then obtain h rest where
    s: "sort_key hit_distance (ray_segments U robot ori segments) = h # rest"
    by (cases "sort_key hit_distance (ray_segments U robot ori segments)") auto
  note m = Min_sort_key_head [OF s]
  note f = sort_key_head(3) [OF s]
  from assms False s
  have r: "(hit_distance h \<le> rng \<longrightarrow> rng \<noteq> 0 \<and>
              row = write_channel [0, 0, 0] (channel U (hit_type h))
                      ((rng - hit_distance h) / rng)) \<and>
           (\<not> hit_distance h \<le> rng \<longrightarrow> row = [0, 0, 0])"
    by (auto simp: ray_reading_def Let_def split: if_splits)
  show ?thesis
    using False m f r by auto
qed

lemma grid_segments_scan_types:
  assumes "grid_segments_scan grid s tx ty ps acc = Inr segments"
    and "\<forall>(seg, c) \<in> set acc. c = Num 1 \<or> c = Num (- 1)"
  shows "\<forall>(seg, c) \<in> set segments. c = Num 1 \<or> c = Num (- 1)"
  using assms
proof (induction ps arbitrary: acc)
  case Nil
  then show ?case by simp
next
  case (Cons p ps)
  obtain i j where p: "p = (i, j)" by (cases p)
  from Cons.prems(1) obtain c where c: "at_cell grid i j = Inr c"
    unfolding p by (auto split: sum.splits)
  show ?case
  proof (cases "c \<in> set [Num 1, Num (- 1)]")
    case True
    with Cons.prems c show ?thesis
      unfolding p
      by (intro Cons.IH [where acc = "acc @ map (\<lambda>seg. (seg, c))
             (struct_segments (real j * s - tx - 0.5 * s) (real j * s - tx + 0.5 * s)
                (real i * s - ty - 0.5 * s) (real i * s - ty + 0.5 * s))"])
         (auto simp: Let_def)
  next
    case False
    with Cons.prems c show ?thesis
      unfolding p by (intro Cons.IH [where acc = acc]) auto
  qed
qed

lemma block_segments_types:
  assumes "(seg, c) \<in> set (block_segments M env w robot_z)"
  shows "c \<in> snd ` set (movable_blocks env)"
  using assms
  by (auto simp: block_segments_def Let_def split: prod.splits if_splits) force

lemma compile_cell_blocks:
  "\<forall>(name, c') \<in> set (snd (compile_cell K i j c)). can_move (sc_utils K) c'"
  by (simp add: compile_cell_def Let_def)

lemma compile_scan_blocks:
  assumes "compile_scan K grid ps acc = Inr (added, mblocks)"
    and "\<forall>(name, c) \<in> set (snd acc). can_move (sc_utils K) c"
  shows "\<forall>(name, c) \<in> set mblocks. can_move (sc_utils K) c"
  using assms
proof (induction ps arbitrary: acc)
  case Nil
  then show ?case by auto
next
  case (Cons p ps)
  obtain i j where p: "p = (i, j)" by (cases p)
  from Cons.prems(1) obtain c where c: "at_cell grid i j = Inr c"
    unfolding p by (auto split: sum.splits)
  show ?case
  proof (rule Cons.IH)
    show "compile_scan K grid ps
            (fst acc @ fst (compile_cell K i j c), snd acc @ snd (compile_cell K i j c)) =
          Inr (added, mblocks)"
      using Cons.prems(1) c unfolding p by simp
    show "\<forall>(name, c) \<in> set (snd (fst acc @ fst (compile_cell K i j c),
             snd acc @ snd (compile_cell K i j c))). can_move (sc_utils K) c"
      using Cons.prems(2) compile_cell_blocks [of K i j c] by auto
  qed
qed

lemma init_blocks_can_move:
  assumes "AntMazeEnv_init M U a tree = Inr (env, tree')"
  shows "\<forall>(name, c) \<in> set (movable_blocks env). can_move U c"
proof -
  from assms obtain K added where
    "compile_scan K (arg_structure a) (grid_cells (arg_structure a)) ([], []) =
       Inr (added, movable_blocks env)" and "sc_utils K = U"
    by (auto simp: AntMazeEnv_init_def Let_def split: sum.splits prod.splits if_splits)
  then show ?thesis
    using compile_scan_blocks [of K "arg_structure a" "grid_cells (arg_structure a)" "([], [])"
            added "movable_blocks env"]
    by simp
qed

lemma step_fields:
  assumes "step M U action env = Inr (r, env')"
  shows "movable_blocks env' = movable_blocks env" and "init_positions env' = init_positions env"
    and "MAZE_STRUCTURE env' = MAZE_STRUCTURE env"
  using assms
  by (auto simp: step_def Let_def split: option.splits sum.splits prod.splits if_splits)

lemma reset_fields:
  assumes "reset M U draw env = Inr (r, env')"
  shows "movable_blocks env' = movable_blocks env" and "init_positions env' = init_positions env"
    and "MAZE_STRUCTURE env' = MAZE_STRUCTURE env"
  using assms
  by (auto simp: reset_def Let_def split: option.splits sum.splits prod.splits if_splits)

lemma sensor_segments_types:
  assumes "sensor_segments M env w robot_z = Inr segments"
    and "\<forall>(name, c) \<in> set (movable_blocks env). can_move U c"
  shows "\<forall>(seg, c) \<in> set segments. c = Num 1 \<or> c = Num (- 1) \<or> can_move U c"
proof -
  from assms(1) obtain gs where
    g: "grid_segments_scan (MAZE_STRUCTURE env) (MAZE_SIZE_SCALING env)
          (init_torso_x env) (init_torso_y env) (grid_cells (MAZE_STRUCTURE env)) [] = Inr gs"
    and s: "segments = gs @ block_segments M env w robot_z"
    by (auto simp: sensor_segments_def split: sum.splits)
  have "\<forall>(seg, c) \<in> set gs. c = Num 1 \<or> c = Num (- 1)"
    using grid_segments_scan_types [OF g] by simp
  moreover have "\<forall>(seg, c) \<in> set (block_segments M env w robot_z). can_move U c"
    using block_segments_types [of _ _ M env w robot_z] assms(2) by fastforce
  ultimately show ?thesis unfolding s by auto
qed

lemma channel_cases:
  "c = Num 1 \<or> c = Num (- 1) \<or> can_move U c \<Longrightarrow>
   channel U c = Some (if c = Num 1 then 0 else if c = Num (- 1) then 1 else 2)"
  by (auto simp: channel_def)

lemma get_range_sensor_obs_Inr:
  assumes "get_range_sensor_obs M U env = Inr readings"
    and "wrapped_env env = Some w"
    and "get_body_com M ''torso'' w = (robot_x, robot_y, robot_z)"
  shows "\<exists>segments. sensor_segments M env w robot_z = Inr segments \<and> 0 \<le> n_bins env \<and>
           sensor_rows
             (\<lambda>ray_idx. ray_reading U (sensor_range env) (robot_x, robot_y)
                (ray_ori (get_ori M w) (sensor_span env) (n_bins env) ray_idx) segments)
             [0..<nat (n_bins env)] = Inr readings"
  using assms
  by (auto simp: get_range_sensor_obs_def Let_def split: sum.splits if_splits)

lemma sample_readings:
  "get_range_sensor_obs sample_model sample_utils sample_env = Inr [[0, 0, 5 / 6]]"
  by code_simp

lemma sample_sensor_segments:
  "sensor_segments sample_model sample_env (0, 0) 0 = Inr sample_segments"
  by code_simp

lemma sample_init:
  "\<exists>tree'. AntMazeEnv_init sample_model sample_utils sample_args sample_tree =
     Inr (sample_env, tree')"
proof
  show "AntMazeEnv_init sample_model sample_utils sample_args sample_tree =
     Inr (sample_env,
          snd (projr (AntMazeEnv_init sample_model sample_utils sample_args sample_tree)))"
    by code_simp
qed

text \<open>
  Claim C4. A returning call of the range sensor with \<open>n_bins = N\<close> yields \<open>N\<close> rows of
  three values each, and row \<open>k\<close> is the reading of the ray cast from the robot at the angle
  \<open>orientation - span / 2 + (2 k + 1) / (2 N) * span\<close>.
\<close>

theorem range_sensor_shape_and_angles:
  assumes "get_range_sensor_obs M U env = Inr readings"
    and "wrapped_env env = Some w"
    and "get_body_com M ''torso'' w = (robot_x, robot_y, robot_z)"
  shows "int (length readings) = n_bins env \<and>
         (\<forall>row \<in> set readings. length row = 3) \<and>
         (\<exists>segments. sensor_segments M env w robot_z = Inr segments \<and>
            (\<forall>k < length readings.
               ray_reading U (sensor_range env) (robot_x, robot_y)
                 (get_ori M w - sensor_span env / 2 +
                    (2 * real k + 1) / (2 * real_of_int (n_bins env)) * sensor_span env)
                 segments = Inr (readings ! k)))"
proof -
  from get_range_sensor_obs_Inr [OF assms] obtain segments where
    seg: "sensor_segments M env w robot_z = Inr segments" and nb: "0 \<le> n_bins env"
    and rows: "sensor_rows
             (\<lambda>ray_idx. ray_reading U (sensor_range env) (robot_x, robot_y)
                (ray_ori (get_ori M w) (sensor_span env) (n_bins env) ray_idx) segments)
             [0..<nat (n_bins env)] = Inr readings"
    by blast
  from sensor_rows_Inr [OF rows]
  have len: "length readings = nat (n_bins env)"
    and each: "\<And>k. k < nat (n_bins env) \<Longrightarrow>
      ray_reading U (sensor_range env) (robot_x, robot_y)
        (ray_ori (get_ori M w) (sensor_span env) (n_bins env) k) segments = Inr (readings ! k)"
    by auto
  have a: "int (length readings) = n_bins env" using len nb by simp
  have b: "\<forall>row \<in> set readings. length row = 3"
  proof
    fix row assume "row \<in> set readings"
    then obtain k where "k < length readings" "row = readings ! k"
      by (auto simp: in_set_conv_nth)
    with each [of k] len show "length row = 3"
      by (auto dest: ray_reading_length)
  qed
  have c: "\<forall>k < length readings.
       ray_reading U (sensor_range env) (robot_x, robot_y)
         (get_ori M w - sensor_span env / 2 +
            (2 * real k + 1) / (2 * real_of_int (n_bins env)) * sensor_span env)
         segments = Inr (readings ! k)"
    using each len by (simp add: ray_ori_def)
  from a b c seg show ?thesis by blast
qed

theorem range_sensor_shape_and_angles_witness:
  "get_range_sensor_obs sample_model sample_utils sample_env = Inr [[0, 0, 5 / 6]] \<and>
   wrapped_env sample_env = Some (0, 0) \<and>
   get_body_com sample_model ''torso'' (0, 0) = (0, 0, 0) \<and>
   int (length [[0, 0, 5 / 6 :: real]]) = n_bins sample_env \<and>
   list_all (\<lambda>row. length row = 3) [[0, 0, 5 / 6 :: real]] \<and>
   (\<exists>segments. sensor_segments sample_model sample_env (0, 0) 0 = Inr segments \<and>
      ray_reading sample_utils (sensor_range sample_env) (0, 0)
        (get_ori sample_model (0, 0) - sensor_span sample_env / 2 +
           (2 * real 0 + 1) / (2 * real_of_int (n_bins sample_env)) * sensor_span sample_env)
        segments = Inr ([[0, 0, 5 / 6]] ! 0))"
proof -
  have w: "wrapped_env sample_env = Some (0, 0)" by (simp add: sample_env_def)
  have b: "get_body_com sample_model ''torso'' (0, 0) = (0, 0, 0)"
    by (simp add: sample_model_def)
  note th = range_sensor_shape_and_angles [OF sample_readings w b]
  from th have "int (length [[0, 0, 5 / 6 :: real]]) = n_bins sample_env" by blast
  moreover from th have "list_all (\<lambda>row. length row = 3) [[0, 0, 5 / 6 :: real]]"
    by (simp add: list_all_iff)
  moreover from th have "\<exists>segments. sensor_segments sample_model sample_env (0, 0) 0 = Inr segments \<and>
      ray_reading sample_utils (sensor_range sample_env) (0, 0)
        (get_ori sample_model (0, 0) - sensor_span sample_env / 2 +
           (2 * real 0 + 1) / (2 * real_of_int (n_bins sample_env)) * sensor_span sample_env)
        segments = Inr ([[0, 0, 5 / 6]] ! 0)"
    by auto
  ultimately show ?thesis using sample_readings w b by blast
qed

text \<open>
  Claim C5. For ray \<open>k\<close> of a returning call, with the movable blocks of the object all
  movable and a distance function that is never negative: when no segment meets the ray
  the row is all zero; otherwise let \<open>first_seg\<close> be the first of the segments at the minimum
  distance \<open>d\<close>. If \<open>d\<close> is within the range, the row is zero except for the value
  \<open>(range - d) / range\<close> in the channel of the type of \<open>first_seg\<close> (0 for a wall, 1 for a
  chasm, 2 for a movable block); if not, the row is all zero. Every value of the row lies
  between 0 and 1.
\<close>

theorem ray_reading_channel:
  assumes "get_range_sensor_obs M U env = Inr readings"
    and "wrapped_env env = Some w"
    and "get_body_com M ''torso'' w = (robot_x, robot_y, robot_z)"
    and "sensor_segments M env w robot_z = Inr segments"
    and "\<forall>(block_name, block_type) \<in> set (movable_blocks env). can_move U block_type"
    and "\<forall>p q. 0 \<le> point_distance U p q"
    and "k < length readings"
    and "hits = ray_segments U (robot_x, robot_y)
                  (ray_ori (get_ori M w) (sensor_span env) (n_bins env) k) segments"
  shows "(hits = [] \<longrightarrow> readings ! k = [0, 0, 0]) \<and>
         (hits \<noteq> [] \<longrightarrow>
            (\<exists>first_seg.
               find (\<lambda>h. hit_distance h = Min (set (map hit_distance hits))) hits
                 = Some first_seg \<and>
               (hit_distance first_seg \<le> sensor_range env \<longrightarrow>
                  readings ! k =
                    [0, 0, 0]
                      [(if hit_type first_seg = Num 1 then 0
                        else if hit_type first_seg = Num (- 1) then 1 else 2) :=
                       (sensor_range env - hit_distance first_seg) / sensor_range env]) \<and>
               (\<not> hit_distance first_seg \<le> sensor_range env \<longrightarrow>
                  readings ! k = [0, 0, 0]))) \<and>
         (\<forall>v \<in> set (readings ! k). 0 \<le> v \<and> v \<le> 1)"
proof -
  from get_range_sensor_obs_Inr [OF assms(1-3)] assms(4)
  have rows: "sensor_rows
             (\<lambda>ray_idx. ray_reading U (sensor_range env) (robot_x, robot_y)
                (ray_ori (get_ori M w) (sensor_span env) (n_bins env) ray_idx) segments)
             [0..<nat (n_bins env)] = Inr readings"
    by auto
  from sensor_rows_Inr [OF rows] assms(7)
  have rd: "ray_reading U (sensor_range env) (robot_x, robot_y)
        (ray_ori (get_ori M w) (sensor_span env) (n_bins env) k) segments = Inr (readings ! k)"
    by auto
  note cases = ray_reading_cases [OF rd, folded assms(8)]
  have types: "\<forall>(seg, c) \<in> set segments. c = Num 1 \<or> c = Num (- 1) \<or> can_move U c"
    by (rule sensor_segments_types [OF assms(4,5)])
  have ch: "channel U (hit_type h) =
      Some (if hit_type h = Num 1 then 0 else if hit_type h = Num (- 1) then 1 else 2)"
    and nonneg: "0 \<le> hit_distance h"
    if "h \<in> set hits" for h
  proof -
    from ray_segments_mem [OF that [unfolded assms(8)]] obtain seg p where
      m: "(seg, hit_type h) \<in> set segments" and d: "hit_distance h = point_distance U p (robot_x, robot_y)"
      by blast
    from m types show "channel U (hit_type h) =
      Some (if hit_type h = Num 1 then 0 else if hit_type h = Num (- 1) then 1 else 2)"
      by (intro channel_cases) auto
    from d assms(6) [rule_format, of p "(robot_x, robot_y)"]
    show "0 \<le> hit_distance h" by simp
  qed
  show ?thesis
  proof (cases "hits = []")
    case True
    with cases show ?thesis by simp
  next
    case False
    with cases obtain h where
      f: "find (\<lambda>x. hit_distance x = Min (set (map hit_distance hits))) hits = Some h"
      and near: "hit_distance h \<le> sensor_range env \<longrightarrow> sensor_range env \<noteq> 0 \<and>
         readings ! k = write_channel [0, 0, 0] (channel U (hit_type h))
                          ((sensor_range env - hit_distance h) / sensor_range env)"
      and far: "\<not> hit_distance h \<le> sensor_range env \<longrightarrow> readings ! k = [0, 0, 0]"
      by blast
    from f have hin: "h \<in> set hits" by (auto simp: find_Some_iff in_set_conv_nth)
    have w: "write_channel [0, 0, 0] (channel U (hit_type h)) v =
        [0, 0, 0][(if hit_type h = Num 1 then 0 else if hit_type h = Num (- 1) then 1 else 2) := v]"
      for v by (simp add: ch [OF hin] write_channel_def)
    have rng: "\<forall>v \<in> set (readings ! k). 0 \<le> v \<and> v \<le> 1"
    proof (cases "hit_distance h \<le> sensor_range env")
      case True
      with near nonneg [OF hin] have pos: "0 < sensor_range env" by auto
      with True nonneg [OF hin]
      have "0 \<le> (sensor_range env - hit_distance h) / sensor_range env"
        and "(sensor_range env - hit_distance h) / sensor_range env \<le> 1"
        by (auto simp: field_simps)
      with near True w show ?thesis by auto
    next
      case False
      with far show ?thesis by simp
    qed
    from False f near far w rng show ?thesis by auto
  qed
qed

theorem ray_reading_channel_witness:
  "get_range_sensor_obs sample_model sample_utils sample_env = Inr [[0, 0, 5 / 6]] \<and>
   wrapped_env sample_env = Some (0, 0) \<and>
   get_body_com sample_model ''torso'' (0, 0) = (0, 0, 0) \<and>
   sensor_segments sample_model sample_env (0, 0) 0 = Inr sample_segments \<and>
   list_all (\<lambda>(block_name, block_type). can_move sample_utils block_type)
     (movable_blocks sample_env) \<and>
   (\<forall>p q. 0 \<le> point_distance sample_utils p q) \<and>
   map (\<lambda>h. (hit_type h, hit_distance h))
     (ray_segments sample_utils (0, 0)
        (ray_ori (get_ori sample_model (0, 0)) (sensor_span sample_env) (n_bins sample_env) 0)
        sample_segments) = [(Num 1, 5), (Num 1, 3), (Num 17, 3), (Num 17, 1)] \<and>
   [[0, 0, 5 / 6]] ! 0 = [0, 0, 0 :: real][2 := (6 - 1) / 6] \<and>
   list_all (\<lambda>v. 0 \<le> v \<and> v \<le> 1) ([[0, 0, 5 / 6 :: real]] ! 0)"
proof -
  have w: "wrapped_env sample_env = Some (0, 0)" by (simp add: sample_env_def)
  have b: "get_body_com sample_model ''torso'' (0, 0) = (0, 0, 0)"
    by (simp add: sample_model_def)
  have m: "\<forall>(block_name, block_type) \<in> set (movable_blocks sample_env).
             can_move sample_utils block_type"
    by (simp add: sample_env_def sample_utils_def)
  have d: "\<forall>p q. 0 \<le> point_distance sample_utils p q"
    by (simp add: sample_utils_def sample_distance_def)
  have k: "0 < length [[0, 0, 5 / 6 :: real]]" by simp
  have hits: "map (\<lambda>h. (hit_type h, hit_distance h))
     (ray_segments sample_utils (0, 0)
        (ray_ori (get_ori sample_model (0, 0)) (sensor_span sample_env) (n_bins sample_env) 0)
        sample_segments) = [(Num 1, 5), (Num 1, 3), (Num 17, 3), (Num 17, 1)]"
    by code_simp
  note th = ray_reading_channel [OF sample_readings w b sample_sensor_segments m d k refl]
  from th have r: "list_all (\<lambda>v. 0 \<le> v \<and> v \<le> 1) ([[0, 0, 5 / 6 :: real]] ! 0)"
    by (simp add: list_all_iff)
  have v: "[[0, 0, 5 / 6]] ! 0 = [0, 0, 0 :: real][2 := (6 - 1) / 6]" by simp
  from m have m': "list_all (\<lambda>(block_name, block_type). can_move sample_utils block_type)
     (movable_blocks sample_env)" by (simp add: list_all_iff)
  from sample_readings w b sample_sensor_segments m' d hits v r show ?thesis by blast
qed

text \<open>
  Claim C10. For an object built by the constructor, in any later state (\<open>step\<close> and
  \<open>reset\<close> keep \<open>movable_blocks\<close>), every segment of the segment list has the type of a
  wall, of a chasm or of a movable block, its channel is 0, 1 or 2, and so the channel of
  the nearest segment of any ray is never \<open>None\<close>.
\<close>

theorem segment_types_have_channel:
  assumes "AntMazeEnv_init M U a tree = Inr (env0, tree')"
    and "movable_blocks env = movable_blocks env0"
    and "sensor_segments M env w robot_z = Inr segments"
  shows "(\<forall>(seg, seg_type) \<in> set segments.
            (seg_type = Num 1 \<or> seg_type = Num (- 1) \<or> can_move U seg_type) \<and>
            channel U seg_type \<in> {Some 0, Some 1, Some 2}) \<and>
         (\<forall>robot ori. \<forall>h \<in> set (ray_segments U robot ori segments).
            channel U (hit_type h) \<noteq> None) \<and>
         (\<forall>action r env'. step M U action env = Inr (r, env') \<longrightarrow>
            movable_blocks env' = movable_blocks env0) \<and>
         (\<forall>draw r env'. reset M U draw env = Inr (r, env') \<longrightarrow>
            movable_blocks env' = movable_blocks env0)"
proof -
  have inv: "\<forall>(name, c) \<in> set (movable_blocks env). can_move U c"
    using init_blocks_can_move [OF assms(1)] assms(2) by simp
  have types: "\<forall>(seg, c) \<in> set segments. c = Num 1 \<or> c = Num (- 1) \<or> can_move U c"
    by (rule sensor_segments_types [OF assms(3) inv])
  have a: "\<forall>(seg, seg_type) \<in> set segments.
            (seg_type = Num 1 \<or> seg_type = Num (- 1) \<or> can_move U seg_type) \<and>
            channel U seg_type \<in> {Some 0, Some 1, Some 2}"
    using types by (auto simp: channel_def)
  have b: "\<forall>robot ori. \<forall>h \<in> set (ray_segments U robot ori segments).
            channel U (hit_type h) \<noteq> None"
  proof (intro allI ballI)
    fix robot ori h assume "h \<in> set (ray_segments U robot ori segments)"
    from ray_segments_mem [OF this] obtain seg where "(seg, hit_type h) \<in> set segments"
      by blast
    with a show "channel U (hit_type h) \<noteq> None" by fastforce
  qed
  have c: "\<forall>action r env'. step M U action env = Inr (r, env') \<longrightarrow>
            movable_blocks env' = movable_blocks env0"
    using step_fields(1) assms(2) by metis
  have d: "\<forall>draw r env'. reset M U draw env = Inr (r, env') \<longrightarrow>
            movable_blocks env' = movable_blocks env0"
    using reset_fields(1) assms(2) by metis
  from a b c d show ?thesis by blast
qed

theorem segment_types_have_channel_witness:
  "(\<exists>tree'. AntMazeEnv_init sample_model sample_utils sample_args sample_tree =
      Inr (sample_env, tree')) \<and>
   sensor_segments sample_model sample_env (0, 0) 0 = Inr sample_segments \<and>
   list_all (\<lambda>(seg, seg_type). channel sample_utils seg_type \<in> {Some 0, Some 1, Some 2})
     sample_segments \<and>
   map (channel sample_utils) (map snd sample_segments) =
     [Some 0, Some 0, Some 0, Some 0, Some 0, Some 0, Some 0, Some 0,
      Some 2, Some 2, Some 2, Some 2]"
proof -
  from sample_init obtain tree' where
    init: "AntMazeEnv_init sample_model sample_utils sample_args sample_tree =
      Inr (sample_env, tree')"
    by blast
  note th = segment_types_have_channel [OF init refl sample_sensor_segments]
  from th have a: "list_all (\<lambda>(seg, seg_type). channel sample_utils seg_type \<in> {Some 0, Some 1, Some 2})
     sample_segments"
    unfolding list_all_iff by fast
  have c: "map (channel sample_utils) (map snd sample_segments) =
     [Some 0, Some 0, Some 0, Some 0, Some 0, Some 0, Some 0, Some 0,
      Some 2, Some 2, Some 2, Some 2]"
    by code_simp
  from sample_init sample_sensor_segments a c show ?thesis by blast
qed

subsection \<open>Observations\<close>

lemma concat_rows_length:
  "\<forall>row \<in> set rows. length row = n \<Longrightarrow> length (concat rows) = n * length rows"
  by (induction rows) auto

lemma range_sensor_rows:
  assumes "get_range_sensor_obs M U env = Inr readings"
  shows "length readings = nat (n_bins env)" and "\<forall>row \<in> set readings. length row = 3"
proof -
  from assms obtain w where w: "wrapped_env env = Some w"
    by (cases "wrapped_env env") (auto simp: get_range_sensor_obs_def)
  obtain x y z where b: "get_body_com M ''torso'' w = (x, y, z)"
    by (cases "get_body_com M ''torso'' w")
  from get_range_sensor_obs_Inr [OF assms w b] obtain segments where
    rows: "sensor_rows
             (\<lambda>ray_idx. ray_reading U (sensor_range env) (x, y)
                (ray_ori (get_ori M w) (sensor_span env) (n_bins env) ray_idx) segments)
             [0..<nat (n_bins env)] = Inr readings"
    by blast
  from sensor_rows_Inr [OF rows]
  have len: "length readings = nat (n_bins env)"
    and each: "\<And>k. k < nat (n_bins env) \<Longrightarrow>
      ray_reading U (sensor_range env) (x, y)
        (ray_ori (get_ori M w) (sensor_span env) (n_bins env) k) segments = Inr (readings ! k)"
    by auto
  show "length readings = nat (n_bins env)" by (rule len)
  show "\<forall>row \<in> set readings. length row = 3"
  proof
    fix row assume "row \<in> set readings"
    then obtain k where "k < length readings" "row = readings ! k"
      by (auto simp: in_set_conv_nth)
    with each [of k] len show "length row = 3"
      by (auto dest: ray_reading_length)
  qed
qed

text \<open>
  Claim C6. An observation that \<open>_get_obs\<close> returns is, in this order: the pixels of the
  top-down view divided by 255 (only in top-down mode), the observation of the wrapped
  model with the position of every movable block spliced in after its first three
  components (only in block-observation mode), the flattened sensor readings, and the
  single value \<open>t * 0.001\<close>; its length is the sum of the lengths of these parts. The
  observation space is the box from minus infinity to infinity of the shape of the
  observation that one call of \<open>_get_obs\<close> returns.
\<close>

theorem get_obs_layout:
  assumes "get_obs M U env = Inr obs"
    and "wrapped_env env = Some w"
  shows "\<exists>readings steps.
           get_range_sensor_obs M U env = Inr readings \<and> t env = Some steps \<and>
           obs =
             (if top_down_view env
              then map (\<lambda>px. real px / 255) (render M (image_size env) (image_size env) w)
              else []) @
             (if observe_blocks env
              then take 3 (wrapped_get_obs M w) @
                   concat (map (\<lambda>(block_name, block_type).
                             (case get_body_com M block_name w of (x, y, z) \<Rightarrow> [x, y, z]))
                           (movable_blocks env)) @
                   drop 3 (wrapped_get_obs M w)
              else wrapped_get_obs M w) @
             concat readings @
             [real_of_int steps * 0.001] \<and>
           length obs =
             (if top_down_view env
              then length (render M (image_size env) (image_size env) w) else 0) +
             length (wrapped_get_obs M w) +
             (if observe_blocks env then 3 * length (movable_blocks env) else 0) +
             3 * nat (n_bins env) + 1 \<and>
           observation_space M U env =
             Inr \<lparr>low = replicate (length obs) NegInf, high = replicate (length obs) PosInf\<rparr>"
proof -
  from assms obtain readings steps where
    r: "get_range_sensor_obs M U env = Inr readings" and s: "t env = Some steps"
    and o: "obs =
             (if top_down_view env
              then map (\<lambda>px. real px / 255) (render M (image_size env) (image_size env) w)
              else []) @
             (if observe_blocks env
              then take 3 (wrapped_get_obs M w) @
                   concat (map (\<lambda>(block_name, block_type).
                             (case get_body_com M block_name w of (x, y, z) \<Rightarrow> [x, y, z]))
                           (movable_blocks env)) @
                   drop 3 (wrapped_get_obs M w)
              else wrapped_get_obs M w) @
             concat readings @
             [real_of_int steps * 0.001]"
    by (auto simp: get_obs_def Let_def split: sum.splits option.splits)
  have blocks: "length (concat (map (\<lambda>(block_name, block_type).
                   (case get_body_com M block_name w of (x, y, z) \<Rightarrow> [x, y, z])) bs)) =
                3 * length bs" for bs :: "(string \<times> cell) list"
    by (induction bs) (auto split: prod.splits)
  have sens: "length (concat readings) = 3 * nat (n_bins env)"
    using concat_rows_length [OF range_sensor_rows(2) [OF r]] range_sensor_rows(1) [OF r]
    by simp
  have len: "length obs =
             (if top_down_view env
              then length (render M (image_size env) (image_size env) w) else 0) +
             length (wrapped_get_obs M w) +
             (if observe_blocks env then 3 * length (movable_blocks env) else 0) +
             3 * nat (n_bins env) + 1"
  proof -
    have "length (take 3 (wrapped_get_obs M w)) + length (drop 3 (wrapped_get_obs M w)) =
          length (wrapped_get_obs M w)"
      by (metis append_take_drop_id length_append)
    then show ?thesis
      unfolding o by (simp add: blocks sens del: length_take length_drop)
  qed
  have sp: "observation_space M U env =
             Inr \<lparr>low = replicate (length obs) NegInf, high = replicate (length obs) PosInf\<rparr>"
    by (simp add: observation_space_def assms(1) Let_def)
  from r s o len sp show ?thesis by blast
qed

lemma sample_get_obs:
  "get_obs sample_model sample_utils (sample_env\<lparr>t := Some 0\<rparr>) =
     Inr [1, 0, 0, 0, 2, 0, 0, 0, 0, 0, 5 / 6, 0]"
  by code_simp

theorem get_obs_layout_witness:
  "get_obs sample_model sample_utils (sample_env\<lparr>t := Some 0\<rparr>) =
     Inr [1, 0, 0, 0, 2, 0, 0, 0, 0, 0, 5 / 6, 0] \<and>
   wrapped_env (sample_env\<lparr>t := Some 0\<rparr>) = Some (0, 0) \<and>
   [1, 0, 0, 0, 2, 0, 0, 0, 0, 0, 5 / 6, 0 :: real] =
     [1] @ ([0, 0, 0] @ [2, 0, 0] @ [0]) @ concat [[0, 0, 5 / 6]] @ [real_of_int 0 * 0.001] \<and>
   length [1, 0, 0, 0, 2, 0, 0, 0, 0, 0, 5 / 6, 0 :: real] = 1 + 4 + 3 * 1 + 3 * 1 + 1 \<and>
   observation_space sample_model sample_utils (sample_env\<lparr>t := Some 0\<rparr>) =
     Inr \<lparr>low = replicate 12 NegInf, high = replicate 12 PosInf\<rparr>"
proof -
  have w: "wrapped_env (sample_env\<lparr>t := Some 0\<rparr>) = Some (0, 0)"
    by (simp add: sample_env_def)
  from get_obs_layout [OF sample_get_obs w]
  have sp: "observation_space sample_model sample_utils (sample_env\<lparr>t := Some 0\<rparr>) =
     Inr \<lparr>low = replicate 12 NegInf, high = replicate 12 PosInf\<rparr>"
    by (auto simp: eval_nat_numeral)
  from sample_get_obs w sp show ?thesis by simp
qed

lemma init_positions_of:
  assumes "AntMazeEnv_init M U a tree = Inr (env, tree')"
  shows "\<exists>torso_x torso_y robots.
           find_robot (arg_structure a) (arg_maze_size_scaling a) = Inr (torso_x, torso_y) \<and>
           find_all_robots (arg_structure a) (arg_maze_size_scaling a) = Inr robots \<and>
           init_torso_x env = torso_x \<and> init_torso_y env = torso_y \<and>
           init_positions env = map (\<lambda>(x, y). (x - torso_x, y - torso_y)) robots"
  using assms
  by (auto simp: AntMazeEnv_init_def Let_def split: sum.splits prod.splits if_splits)

subsection \<open>The calls return\<close>

text \<open>
  The methods return on an object whose grid is two-dimensional, whose wrapped model
  exists, whose counter is set, and whose sensor has a non-negative number of rays and a
  range different from zero.
\<close>

lemma grid_segments_scan_total:
  assumes "\<forall>(i, j) \<in> set ps. i < length grid \<and> j < length (grid ! i)"
  shows "\<exists>segments. grid_segments_scan grid s tx ty ps acc = Inr segments"
  using assms
proof (induction ps arbitrary: acc)
  case Nil
  then show ?case by simp
next
  case (Cons q ps)
  obtain i j where q: "q = (i, j)" by (cases q)
  from Cons.prems have c: "at_cell grid i j = Inr (grid ! i ! j)"
    unfolding q by (simp add: at_cell_def)
  from Cons.prems have "\<forall>(i, j) \<in> set ps. i < length grid \<and> j < length (grid ! i)" by simp
  from Cons.IH [OF this] show ?case unfolding q by (simp add: c)
qed

lemma sensor_segments_total:
  assumes "rectangular (MAZE_STRUCTURE env)"
  shows "\<exists>segments. sensor_segments M env w robot_z = Inr segments"
proof -
  from grid_segments_scan_total [OF grid_cells_in_bounds [OF assms]]
  obtain gs where "grid_segments_scan (MAZE_STRUCTURE env) (MAZE_SIZE_SCALING env)
          (init_torso_x env) (init_torso_y env) (grid_cells (MAZE_STRUCTURE env)) [] = Inr gs"
    by blast
  then show ?thesis by (simp add: sensor_segments_def)
qed

lemma ray_reading_total:
  assumes "rng \<noteq> 0"
  shows "\<exists>row. ray_reading U rng robot ori segments = Inr row"
proof (cases "ray_segments U robot ori segments = []")
  case True
  then show ?thesis by (simp add: ray_reading_def)
next
  case False
  then have "sort_key hit_distance (ray_segments U robot ori segments) \<noteq> []"
    by (metis length_sort length_0_conv)
  then obtain h rest where
    "sort_key hit_distance (ray_segments U robot ori segments) = h # rest"
    by (cases "sort_key hit_distance (ray_segments U robot ori segments)") auto
  with False assms show ?thesis by (simp add: ray_reading_def Let_def)
qed

lemma get_range_sensor_obs_returns:
  assumes "wrapped_env env = Some w"
    and "rectangular (MAZE_STRUCTURE env)"
    and "0 \<le> n_bins env"
    and "sensor_range env \<noteq> 0"
  shows "\<exists>readings. get_range_sensor_obs M U env = Inr readings"
proof -
  obtain x y z where b: "get_body_com M ''torso'' w = (x, y, z)"
    by (cases "get_body_com M ''torso'' w")
  from sensor_segments_total [OF assms(2)] obtain segments where
    s: "sensor_segments M env w z = Inr segments" by blast
  have "\<exists>rows. sensor_rows
          (\<lambda>ray_idx. ray_reading U (sensor_range env) (x, y)
             (ray_ori (get_ori M w) (sensor_span env) (n_bins env) ray_idx) segments)
          [0..<nat (n_bins env)] = Inr rows"
    by (intro sensor_rows_total ballI ray_reading_total assms(4))
  then show ?thesis
    using assms(1,3) by (simp add: get_range_sensor_obs_def b s Let_def)
qed

lemma get_obs_returns:
  assumes "wrapped_env env = Some w"
    and "t env = Some steps"
    and "rectangular (MAZE_STRUCTURE env)"
    and "0 \<le> n_bins env"
    and "sensor_range env \<noteq> 0"
  shows "\<exists>obs. get_obs M U env = Inr obs"
proof -
  from get_range_sensor_obs_returns [OF assms(1,3,4,5)] obtain readings where
    "get_range_sensor_obs M U env = Inr readings" by blast
  then show ?thesis using assms(1,2) by (simp add: get_obs_def Let_def)
qed

lemma step_returns:
  assumes "wrapped_env env = Some w"
    and "t env = Some steps"
    and "rectangular (MAZE_STRUCTURE env)"
    and "0 \<le> n_bins env"
    and "sensor_range env \<noteq> 0"
  shows "\<exists>result env'. step M U action env = Inr (result, env')"
proof -
  obtain r w2 where ws: "wrapped_step M action (update_cam M w) = (r, w2)"
    by (cases "wrapped_step M action (update_cam M w)")
  obtain o1 r1 d1 i1 where r: "r = (o1, r1, d1, i1)" by (cases r)
  define env1 where "env1 = env\<lparr>t := Some (steps + 1), wrapped_env := Some (update_cam M w)\<rparr>"
  have rect1: "rectangular (MAZE_STRUCTURE env1)" using assms(3) by (simp add: env1_def)
  have col: "is_in_collision env1 pos = Inr (within_wall_bounds env1 pos)" for pos
    by (rule is_in_collision_rect [OF rect1])
  have obs: "\<exists>obs. get_obs M U (env1\<lparr>wrapped_env := Some w3\<rparr>) = Inr obs" for w3
    by (rule get_obs_returns [where w = w3 and steps = "steps + 1"])
       (simp_all add: env1_def assms)
  from obs [of w2] obtain obs2 where
    o2: "get_obs M U (env1\<lparr>wrapped_env := Some w2\<rparr>) = Inr obs2" by blast
  from obs [of "set_xy M (get_xy M (update_cam M w)) w2"] obtain obs3 where
    o3: "get_obs M U (env1\<lparr>wrapped_env := Some (set_xy M (get_xy M (update_cam M w)) w2)\<rparr>) =
         Inr obs3" by blast
  show ?thesis
    using assms(1,2) o2 o3
    by (auto simp: step_def Let_def ws r col [unfolded env1_def] env1_def)
qed

lemma reset_returns:
  assumes "wrapped_env env = Some w"
    and "rectangular (MAZE_STRUCTURE env)"
    and "0 \<le> n_bins env"
    and "sensor_range env \<noteq> 0"
    and "draw < length (init_positions env)"
  shows "\<exists>obs env'. reset M U draw env = Inr (obs, env')"
proof -
  define env1 where "env1 = env\<lparr>t := Some 0, trajectory := Some []\<rparr>"
  have obs: "\<exists>obs. get_obs M U (env1\<lparr>wrapped_env := Some w3\<rparr>) = Inr obs" for w3
    by (rule get_obs_returns [where w = w3 and steps = 0])
       (simp_all add: env1_def assms)
  from obs [of "wrapped_reset M w"] obtain obs1 where
    o1: "get_obs M U (env1\<lparr>wrapped_env := Some (wrapped_reset M w)\<rparr>) = Inr obs1" by blast
  from obs [of "set_xy M (init_positions env ! draw) (wrapped_reset M w)"] obtain obs2 where
    o2: "get_obs M U (env1\<lparr>wrapped_env :=
           Some (set_xy M (init_positions env ! draw) (wrapped_reset M w))\<rparr>) = Inr obs2"
    by blast
  show ?thesis
    using assms(1,5) o1 o2
    by (simp add: reset_def Let_def choice_def env1_def)
qed

subsection \<open>Reset\<close>

text \<open>
  The weights of the outcomes of \<open>reset\<close> sum to one. When the start offsets are pairwise
  different and reading back a position that was just set returns it, every start offset
  is the position after \<open>reset\<close> for exactly one index, hence with probability \<open>1 / n\<close>
  for \<open>n\<close> start offsets.
\<close>

lemma randbelow_total: "0 < n \<Longrightarrow> sum_list (map snd (randbelow n)) = 1"
  by (simp add: randbelow_def comp_def sum_list_triv)

lemma reset_random_total: "sum_list (map snd (reset_random M U env)) = 1"
proof (cases "1 < length (init_positions env)")
  case True
  then have "0 < length (init_positions env)" by (cases "init_positions env") simp_all
  from randbelow_total [OF this]
  have "sum_list (map snd (randbelow (length (init_positions env)))) = 1" .
  moreover have "map snd (map (\<lambda>(k, p). (reset M U k env, p))
                   (randbelow (length (init_positions env)))) =
                 map snd (randbelow (length (init_positions env)))"
    by (simp add: randbelow_def comp_def)
  ultimately show ?thesis using True by (simp only: reset_random_def if_True)
next
  case False
  then show ?thesis by (simp add: reset_random_def)
qed

lemma distinct_filter_eq:
  "distinct ps \<Longrightarrow> p \<in> set ps \<Longrightarrow> length (filter (\<lambda>x. x = p) ps) = 1"
  by (induction ps) (auto simp: filter_empty_conv)

lemma distinct_index_count:
  assumes "distinct ps" and "p \<in> set ps"
  shows "length (filter (\<lambda>k. ps ! k = p) [0..<length ps]) = 1"
proof -
  have "length (filter (\<lambda>x. x = p) (map (\<lambda>k. ps ! k) [0..<length ps])) =
        length (filter (\<lambda>k. ps ! k = p) [0..<length ps])"
    by (simp add: filter_map comp_def)
  moreover have "map (\<lambda>k. ps ! k) [0..<length ps] = ps" by (rule map_nth)
  ultimately show ?thesis using distinct_filter_eq [OF assms] by simp
qed

lemma reset_state:
  assumes "reset M U k env = Inr (obs, env')" and "wrapped_env env = Some w"
    and "1 < length (init_positions env)"
  shows "k < length (init_positions env)"
    and "wrapped_env env' = Some (set_xy M (init_positions env ! k) (wrapped_reset M w))"
  using assms
  by (auto simp: reset_def Let_def choice_def split: sum.splits if_splits)

lemma reset_random_uniform:
  assumes w: "wrapped_env env = Some w"
    and m: "1 < length (init_positions env)"
    and d: "distinct (init_positions env)"
    and law: "\<forall>xy v. get_xy M (set_xy M xy v) = xy"
    and r: "rectangular (MAZE_STRUCTURE env)"
    and nb: "0 \<le> n_bins env"
    and sr: "sensor_range env \<noteq> 0"
  shows "\<forall>offset \<in> set (init_positions env).
           prob (reset_random M U env) (starts_at M offset) =
             1 / real (length (init_positions env))"
proof
  fix offset assume mem: "offset \<in> set (init_positions env)"
  let ?ps = "init_positions env"
  let ?n = "length ?ps"
  have ev: "starts_at M offset (reset M U k env) = (?ps ! k = offset)" if k: "k < ?n" for k
  proof -
    from reset_returns [OF w r nb sr k, of M U] obtain obs env' where
      res: "reset M U k env = Inr (obs, env')" by blast
    from reset_state(2) [OF res w m]
    have "wrapped_env env' = Some (set_xy M (?ps ! k) (wrapped_reset M w))" .
    moreover from law have "get_xy M (set_xy M (?ps ! k) (wrapped_reset M w)) = ?ps ! k"
      by blast
    ultimately show ?thesis by (simp add: starts_at_def res)
  qed
  have f: "filter (\<lambda>k. starts_at M offset (reset M U k env)) [0..<?n] =
           filter (\<lambda>k. ?ps ! k = offset) [0..<?n]"
    by (rule filter_cong) (simp_all add: ev)
  have "prob (reset_random M U env) (starts_at M offset) =
        sum_list (map (\<lambda>k. 1 / real ?n)
          (filter (\<lambda>k. starts_at M offset (reset M U k env)) [0..<?n]))"
    using m by (simp add: prob_def reset_random_def randbelow_def filter_map comp_def)
  also have "\<dots> = real (length (filter (\<lambda>k. ?ps ! k = offset) [0..<?n])) * (1 / real ?n)"
    unfolding f by (simp add: sum_list_triv)
  also have "\<dots> = 1 / real ?n"
    by (simp add: distinct_index_count [OF d mem])
  finally show "prob (reset_random M U env) (starts_at M offset) = 1 / real ?n" .
qed

text \<open>
  Claim C7. A returning \<open>reset\<close> on an object built by the constructor from a
  two-dimensional grid leaves the step counter at zero and the trajectory empty, and
  resets the wrapped model. The start offsets are the robot-start cells of the grid
  relative to the first of them. With more than one robot-start cell the position is set
  to the offset that \<open>random.choice\<close> draws (index \<open>draw\<close>) before the observation is
  computed; with exactly one, the position is not set. The choice is uniform: the weights
  of the outcomes of \<open>reset\<close> sum to one; with \<open>n > 1\<close> robot-start cells there are \<open>n\<close>
  outcomes, and the one of index \<open>draw\<close> has the weight \<open>1 / n\<close>; the offsets are pairwise
  different when the size scaling is not zero, and then, on an object on which the methods
  return and with a wrapped model that reads back the position that was set, each start
  offset is the position of the agent after \<open>reset\<close> with probability \<open>1 / n\<close>.
\<close>

theorem reset_contract:
  assumes "reset M U draw env = Inr (obs, env')"
    and "wrapped_env env = Some w"
    and "AntMazeEnv_init M U a tree = Inr (env0, tree')"
    and "rectangular (arg_structure a)"
    and "init_positions env = init_positions env0"
  shows "t env' = Some 0 \<and> trajectory env' = Some [] \<and>
         length (init_positions env) = count_list (concat (arg_structure a)) (Str ''r'') \<and>
         init_positions env =
           map (\<lambda>(i, j). (real j * arg_maze_size_scaling a - init_torso_x env0,
                          real i * arg_maze_size_scaling a - init_torso_y env0))
             (filter (\<lambda>(i, j). arg_structure a ! i ! j = Str ''r'')
                (grid_cells (arg_structure a))) \<and>
         (1 < count_list (concat (arg_structure a)) (Str ''r'') \<longrightarrow>
            draw < length (init_positions env) \<and>
            wrapped_env env' = Some (set_xy M (init_positions env ! draw) (wrapped_reset M w))) \<and>
         (count_list (concat (arg_structure a)) (Str ''r'') = 1 \<longrightarrow>
            wrapped_env env' = Some (wrapped_reset M w)) \<and>
         (arg_maze_size_scaling a \<noteq> 0 \<longrightarrow> distinct (init_positions env)) \<and>
         get_obs M U env' = Inr obs \<and>
         init_positions env' = init_positions env \<and>
         sum_list (map snd (reset_random M U env)) = 1 \<and>
         (1 < count_list (concat (arg_structure a)) (Str ''r'') \<longrightarrow>
            length (reset_random M U env) = count_list (concat (arg_structure a)) (Str ''r'') \<and>
            reset_random M U env ! draw =
              (Inr (obs, env'), 1 / real (count_list (concat (arg_structure a)) (Str ''r'')))) \<and>
         (1 < count_list (concat (arg_structure a)) (Str ''r'') \<and>
          arg_maze_size_scaling a \<noteq> 0 \<and>
          (\<forall>xy v. get_xy M (set_xy M xy v) = xy) \<and>
          rectangular (MAZE_STRUCTURE env) \<and> 0 \<le> n_bins env \<and> sensor_range env \<noteq> 0 \<longrightarrow>
            (\<forall>offset \<in> set (init_positions env).
               prob (reset_random M U env) (starts_at M offset) =
                 1 / real (count_list (concat (arg_structure a)) (Str ''r''))))"
proof -
  from init_positions_of [OF assms(3)] obtain torso_x torso_y robots where
    fr: "find_robot (arg_structure a) (arg_maze_size_scaling a) = Inr (torso_x, torso_y)"
    and far: "find_all_robots (arg_structure a) (arg_maze_size_scaling a) = Inr robots"
    and tx: "init_torso_x env0 = torso_x" and ty: "init_torso_y env0 = torso_y"
    and ip: "init_positions env0 = map (\<lambda>(x, y). (x - torso_x, y - torso_y)) robots"
    by blast
  from far find_all_robots_rect [OF assms(4), of "arg_maze_size_scaling a"]
  have robots: "robots = map (\<lambda>(i, j). (real j * arg_maze_size_scaling a,
                                         real i * arg_maze_size_scaling a))
             (filter (\<lambda>(i, j). arg_structure a ! i ! j = Str ''r'')
                (grid_cells (arg_structure a)))"
    by simp
  have pos: "init_positions env =
           map (\<lambda>(i, j). (real j * arg_maze_size_scaling a - init_torso_x env0,
                          real i * arg_maze_size_scaling a - init_torso_y env0))
             (filter (\<lambda>(i, j). arg_structure a ! i ! j = Str ''r'')
                (grid_cells (arg_structure a)))"
    unfolding assms(5) ip robots tx ty by (simp add: case_prod_unfold comp_def)
  have len: "length (init_positions env) = count_list (concat (arg_structure a)) (Str ''r'')"
    unfolding pos by (simp add: robot_cells_count [OF assms(4)])
  from assms(1,2)
  have a: "t env' = Some 0" and b: "trajectory env' = Some []"
    and o: "get_obs M U env' = Inr obs" and i: "init_positions env' = init_positions env"
    and many: "1 < length (init_positions env) \<longrightarrow>
            draw < length (init_positions env) \<and>
            wrapped_env env' = Some (set_xy M (init_positions env ! draw) (wrapped_reset M w))"
    and one: "\<not> 1 < length (init_positions env) \<longrightarrow>
            wrapped_env env' = Some (wrapped_reset M w)"
    by (auto simp: reset_def Let_def choice_def split: sum.splits if_splits)
  have dist: "distinct (init_positions env)" if s: "arg_maze_size_scaling a \<noteq> 0"
  proof -
    have "inj (\<lambda>(i, j). (real j * arg_maze_size_scaling a - init_torso_x env0,
                          real i * arg_maze_size_scaling a - init_torso_y env0))"
    proof (rule injI)
      fix p q :: "nat \<times> nat"
      obtain i j where p: "p = (i, j)" by (cases p)
      obtain i' j' where q: "q = (i', j')" by (cases q)
      assume "(case p of (i, j) \<Rightarrow>
                 (real j * arg_maze_size_scaling a - init_torso_x env0,
                  real i * arg_maze_size_scaling a - init_torso_y env0)) =
              (case q of (i, j) \<Rightarrow>
                 (real j * arg_maze_size_scaling a - init_torso_x env0,
                  real i * arg_maze_size_scaling a - init_torso_y env0))"
      then have "real j * arg_maze_size_scaling a = real j' * arg_maze_size_scaling a"
        and "real i * arg_maze_size_scaling a = real i' * arg_maze_size_scaling a"
        unfolding p q by simp_all
      with s have "j = j'" and "i = i'" by simp_all
      then show "p = q" unfolding p q by simp
    qed
    then have "inj_on (\<lambda>(i, j). (real j * arg_maze_size_scaling a - init_torso_x env0,
                          real i * arg_maze_size_scaling a - init_torso_y env0))
                 (set (filter (\<lambda>(i, j). arg_structure a ! i ! j = Str ''r'')
                    (grid_cells (arg_structure a))))"
      by (rule inj_on_subset) simp_all
    moreover have "distinct (filter (\<lambda>(i, j). arg_structure a ! i ! j = Str ''r'')
                    (grid_cells (arg_structure a)))"
      by (rule distinct_filter) (rule distinct_grid_cells)
    ultimately show ?thesis
      unfolding pos by (simp only: distinct_map)
  qed
  have total: "sum_list (map snd (reset_random M U env)) = 1"
    by (rule reset_random_total)
  have draws: "length (reset_random M U env) = length (init_positions env) \<and>
      reset_random M U env ! draw = (Inr (obs, env'), 1 / real (length (init_positions env)))"
    if m: "1 < length (init_positions env)"
  proof -
    from many m have d: "draw < length (init_positions env)" by simp
    with m assms(1) show ?thesis
      by (simp add: reset_random_def randbelow_def)
  qed
  have unif: "\<forall>offset \<in> set (init_positions env).
      prob (reset_random M U env) (starts_at M offset) = 1 / real (length (init_positions env))"
    if m: "1 < length (init_positions env)" and s: "arg_maze_size_scaling a \<noteq> 0"
      and law: "\<forall>xy v. get_xy M (set_xy M xy v) = xy"
      and r: "rectangular (MAZE_STRUCTURE env)" and nb: "0 \<le> n_bins env"
      and sr: "sensor_range env \<noteq> 0"
    using reset_random_uniform [OF assms(2) m dist [OF s] law r nb sr] by blast
  from a b o i many one len pos dist total draws unif show ?thesis
    by (simp del: split_paired_All)
qed

lemma sample_init2:
  "\<exists>tree'. AntMazeEnv_init sample_model sample_utils
              (sample_args\<lparr>arg_structure := [[Str ''r'', Num 0, Str ''r'']]\<rparr>) sample_tree =
            Inr (sample_env2, tree')"
proof
  show "AntMazeEnv_init sample_model sample_utils
          (sample_args\<lparr>arg_structure := [[Str ''r'', Num 0, Str ''r'']]\<rparr>) sample_tree =
        Inr (sample_env2,
             snd (projr (AntMazeEnv_init sample_model sample_utils
               (sample_args\<lparr>arg_structure := [[Str ''r'', Num 0, Str ''r'']]\<rparr>) sample_tree)))"
    by code_simp
qed

theorem reset_contract_witness:
  "reset sample_model sample_utils 1 sample_env2 =
     Inr ([1, 4, 0, 0, 0, 0, 0, 0, 0],
          sample_env2\<lparr>t := Some 0, trajectory := Some [], wrapped_env := Some (4, 0)\<rparr>) \<and>
   wrapped_env sample_env2 = Some (0, 0) \<and>
   (\<exists>tree'. AntMazeEnv_init sample_model sample_utils
              (sample_args\<lparr>arg_structure := [[Str ''r'', Num 0, Str ''r'']]\<rparr>) sample_tree =
            Inr (sample_env2, tree')) \<and>
   rectangular [[Str ''r'', Num 0, Str ''r'']] \<and>
   count_list (concat [[Str ''r'', Num 0, Str ''r'']]) (Str ''r'') = 2 \<and>
   init_positions sample_env2 = [(0, 0), (4, 0)] \<and>
   wrapped_env (sample_env2\<lparr>t := Some 0, trajectory := Some [], wrapped_env := Some (4, 0)\<rparr>) =
     Some (set_xy sample_model (init_positions sample_env2 ! 1)
             (wrapped_reset sample_model (0, 0))) \<and>
   reset sample_model sample_utils 0 sample_env =
     Inr ([1, 0, 0, 0, 2, 0, 0, 0, 0, 0, 5 / 6, 0],
          sample_env\<lparr>t := Some 0, trajectory := Some []\<rparr>) \<and>
   count_list (concat [[Num 1, Str ''r'', Num 17, Num 1]]) (Str ''r'') = 1 \<and>
   wrapped_env (sample_env\<lparr>t := Some 0, trajectory := Some []\<rparr>) =
     Some (wrapped_reset sample_model (0, 0)) \<and>
   arg_maze_size_scaling (sample_args\<lparr>arg_structure := [[Str ''r'', Num 0, Str ''r'']]\<rparr>) = 2 \<and>
   (\<forall>xy v. get_xy sample_model (set_xy sample_model xy v) = xy) \<and>
   rectangular (MAZE_STRUCTURE sample_env2) \<and>
   n_bins sample_env2 = 1 \<and>
   sensor_range sample_env2 = 6 \<and>
   sum_list (map snd (reset_random sample_model sample_utils sample_env2)) = 1 \<and>
   reset_random sample_model sample_utils sample_env2 ! 1 =
     (Inr ([1, 4, 0, 0, 0, 0, 0, 0, 0],
           sample_env2\<lparr>t := Some 0, trajectory := Some [], wrapped_env := Some (4, 0)\<rparr>),
      1 / 2) \<and>
   prob (reset_random sample_model sample_utils sample_env2) (starts_at sample_model (0, 0)) =
     1 / 2 \<and>
   prob (reset_random sample_model sample_utils sample_env2) (starts_at sample_model (4, 0)) =
     1 / 2"
proof -
  have r2: "reset sample_model sample_utils 1 sample_env2 =
     Inr ([1, 4, 0, 0, 0, 0, 0, 0, 0],
          sample_env2\<lparr>t := Some 0, trajectory := Some [], wrapped_env := Some (4, 0)\<rparr>)"
    by code_simp
  have r1: "reset sample_model sample_utils 0 sample_env =
     Inr ([1, 0, 0, 0, 2, 0, 0, 0, 0, 0, 5 / 6, 0],
          sample_env\<lparr>t := Some 0, trajectory := Some []\<rparr>)"
    by code_simp
  have w2: "wrapped_env sample_env2 = Some (0, 0)"
    by (simp add: sample_env2_def sample_env_def)
  have w1: "wrapped_env sample_env = Some (0, 0)"
    by (simp add: sample_env_def)
  have g2: "rectangular (arg_structure (sample_args\<lparr>arg_structure := [[Str ''r'', Num 0, Str ''r'']]\<rparr>))"
    by (simp add: rectangular_def ncols_def)
  have g1: "rectangular (arg_structure sample_args)"
    by (simp add: sample_args_def rectangular_def ncols_def)
  from sample_init2 obtain tree2 where
    i2: "AntMazeEnv_init sample_model sample_utils
           (sample_args\<lparr>arg_structure := [[Str ''r'', Num 0, Str ''r'']]\<rparr>) sample_tree =
         Inr (sample_env2, tree2)"
    by blast
  from sample_init obtain tree1 where
    i1: "AntMazeEnv_init sample_model sample_utils sample_args sample_tree =
         Inr (sample_env, tree1)"
    by blast
  have c2: "wrapped_env (sample_env2\<lparr>t := Some 0, trajectory := Some [],
                wrapped_env := Some (4, 0)\<rparr>) =
     Some (set_xy sample_model (init_positions sample_env2 ! 1)
             (wrapped_reset sample_model (0, 0)))"
    using reset_contract [OF r2 w2 i2 g2 refl] by simp
  have c1: "wrapped_env (sample_env\<lparr>t := Some 0, trajectory := Some []\<rparr>) =
     Some (wrapped_reset sample_model (0, 0))"
    using reset_contract [OF r1 w1 i1 g1 refl] by (simp add: sample_args_def)
  have p: "init_positions sample_env2 = [(0, 0), (4, 0)]"
    by (simp add: sample_env2_def)
  have g: "rectangular [[Str ''r'', Num 0, Str ''r'']]"
    by (simp add: rectangular_def ncols_def)
  have cnt: "count_list (concat (arg_structure
      (sample_args\<lparr>arg_structure := [[Str ''r'', Num 0, Str ''r'']]\<rparr>))) (Str ''r'') = 2"
    by simp
  have sc: "arg_maze_size_scaling
      (sample_args\<lparr>arg_structure := [[Str ''r'', Num 0, Str ''r'']]\<rparr>) = 2"
    by (simp add: sample_args_def)
  have law: "\<forall>xy v. get_xy sample_model (set_xy sample_model xy v) = xy"
    by (simp add: sample_model_def)
  have re: "rectangular (MAZE_STRUCTURE sample_env2)"
    by (simp add: sample_env2_def rectangular_def ncols_def)
  have nb: "n_bins sample_env2 = 1" and sr: "sensor_range sample_env2 = 6"
    by (simp_all add: sample_env2_def sample_env_def)
  note th = reset_contract [OF r2 w2 i2 g2 refl]
  from th have tot: "sum_list (map snd (reset_random sample_model sample_utils sample_env2)) = 1"
    by blast
  from th cnt have dr: "reset_random sample_model sample_utils sample_env2 ! 1 =
     (Inr ([1, 4, 0, 0, 0, 0, 0, 0, 0],
           sample_env2\<lparr>t := Some 0, trajectory := Some [], wrapped_env := Some (4, 0)\<rparr>),
      1 / 2)"
    by simp
  from th cnt sc law re nb sr
  have un: "\<forall>offset \<in> set (init_positions sample_env2).
      prob (reset_random sample_model sample_utils sample_env2) (starts_at sample_model offset) =
        1 / 2"
    by (simp del: split_paired_All)
  from un p have u0: "prob (reset_random sample_model sample_utils sample_env2)
      (starts_at sample_model (0, 0)) = 1 / 2"
    and u4: "prob (reset_random sample_model sample_utils sample_env2)
      (starts_at sample_model (4, 0)) = 1 / 2"
    by simp_all
  from r2 w2 sample_init2 g p c2 r1 c1 sc law re nb sr tot dr u0 u4 show ?thesis
    by (simp del: split_paired_All)
qed

subsection \<open>The compiled scene\<close>

lemma digit_char_inj:
  assumes "a < 10" "b < 10" "digit_char a = digit_char b"
  shows "a = b"
proof -
  have d: "distinct ''0123456789''" by simp
  have l: "length ''0123456789'' = 10" by simp
  from assms have "''0123456789'' ! a = ''0123456789'' ! b"
    by (simp add: digit_char_def)
  with assms(1,2) show ?thesis
    using nth_eq_iff_index_eq [OF d, of a b] l by simp
qed

lemma digit_char_not_sep: "digit_char d \<noteq> CHR ''_''"
proof -
  have "d mod 10 < length ''0123456789''" by simp
  then have "digit_char d \<in> set ''0123456789''"
    unfolding digit_char_def by (rule nth_mem)
  then show ?thesis by auto
qed

lemma fmt_d_nonempty: "fmt_d n \<noteq> []"
  by (subst fmt_d.simps) simp

lemma fmt_d_no_sep: "CHR ''_'' \<notin> set (fmt_d n)"
proof (induction n rule: fmt_d.induct)
  case (1 n)
  show ?case
  proof (cases "n < 10")
    case True
    then show ?thesis
      by (subst fmt_d.simps) (simp add: digit_char_not_sep [symmetric])
  next
    case False
    with "1" show ?thesis
      by (subst fmt_d.simps) (simp add: digit_char_not_sep [symmetric])
  qed
qed

lemma fmt_d_inj: "fmt_d m = fmt_d n \<Longrightarrow> m = n"
proof (induction m arbitrary: n rule: fmt_d.induct)
  case (1 m)
  show ?case
  proof (cases "m < 10")
    case m: True
    show ?thesis
    proof (cases "n < 10")
      case True
      with m "1.prems" show ?thesis
        by (simp add: fmt_d.simps [of m] fmt_d.simps [of n] digit_char_inj)
    next
      case False
      with m "1.prems" fmt_d_nonempty [of "n div 10"] show ?thesis
        by (simp add: fmt_d.simps [of m] fmt_d.simps [of n])
    qed
  next
    case m: False
    show ?thesis
    proof (cases "n < 10")
      case True
      with m "1.prems" fmt_d_nonempty [of "m div 10"] show ?thesis
        by (simp add: fmt_d.simps [of m] fmt_d.simps [of n])
    next
      case False
      with m "1.prems" have e: "fmt_d (m div 10) = fmt_d (n div 10)"
        and d: "digit_char (m mod 10) = digit_char (n mod 10)"
        by (simp_all add: fmt_d.simps [of m] fmt_d.simps [of n])
      from "1.IH" [OF m e] have "m div 10 = n div 10" .
      moreover from d have "m mod 10 = n mod 10"
        by (intro digit_char_inj) simp_all
      ultimately show ?thesis by (metis div_mult_mod_eq)
    qed
  qed
qed

lemma split_at_sep:
  assumes "xs @ c # ys = xs' @ c # ys'" and "c \<notin> set xs" and "c \<notin> set xs'"
  shows "xs = xs' \<and> ys = ys'"
  using assms
proof (induction xs arbitrary: xs')
  case Nil
  then show ?case by (cases xs') auto
next
  case (Cons x xs)
  then show ?case by (cases xs') auto
qed

lemma cell_name_inj:
  assumes "cell_name prefix i j = cell_name prefix i' j'"
  shows "i = i' \<and> j = j'"
proof -
  from assms have "fmt_d i @ CHR ''_'' # fmt_d j = fmt_d i' @ CHR ''_'' # fmt_d j'"
    by (simp add: cell_name_def)
  from split_at_sep [OF this fmt_d_no_sep fmt_d_no_sep]
  show ?thesis by (auto dest: fmt_d_inj)
qed

lemma cell_name_prefix: "cell_name ''elevated_'' i j \<noteq> cell_name ''block_'' i' j'"
  by (simp add: cell_name_def)

lemma cell_name_eq:
  assumes "p \<in> {''elevated_'', ''block_''}" and "p' \<in> {''elevated_'', ''block_''}"
    and "cell_name p i j = cell_name p' i' j'"
  shows "p = p' \<and> i = i' \<and> j = j'"
proof (cases "p = p'")
  case True
  with assms(3) cell_name_inj [of p i j i' j'] show ?thesis by simp
next
  case False
  with assms cell_name_prefix [of i j i' j'] cell_name_prefix [of i' j' i j]
  show ?thesis by auto
qed

lemma geoms_of_joints: "concat (map geoms_of (movable_joints U s ho c i j)) = []"
  by (simp add: movable_joints_def slide_joint_def ball_joint_def Let_def)

lemma geom_names_append: "geom_names (xs @ ys) = geom_names xs @ geom_names ys"
  by (simp add: geom_names_def)

lemma compile_cell_names:
  "geom_names (fst (compile_cell K i j c)) =
     (if sc_elevated K \<and> cell_struct K c \<noteq> Num (- 1)
      then [Some (Text (cell_name ''elevated_'' i j))] else []) @
     (if cell_struct K c = Num 1 \<or> can_move (sc_utils K) (cell_struct K c)
      then [Some (Text (cell_name ''block_'' i j))] else [])"
proof -
  have m: "map name_of (geoms_of (movable_body U h s tx ty ho c' i j)) =
           [Some (Text (cell_name ''block_'' i j))]" for U h s tx ty ho c'
    by (simp add: movable_body_def Let_def movable_geom_def geoms_of_joints)
  have w: "map name_of (geoms_of (wall_geom h s tx ty ho r cs i j)) =
           [Some (Text (cell_name ''block_'' i j))]" for h s tx ty ho r cs
    by (simp add: wall_geom_def)
  have e: "map name_of (geoms_of (elevated_geom h s tx ty i j)) =
           [Some (Text (cell_name ''elevated_'' i j))]" for h s tx ty
    by (simp add: elevated_geom_def)
  show ?thesis
    unfolding compile_cell_def Let_def geom_names_def
    by (simp add: m w e)
qed

lemma compile_cell_names_set:
  "set (geom_names (fst (compile_cell K i j c))) \<subseteq> cell_names {(i, j)}"
  by (auto simp: compile_cell_names cell_names_def)

lemma compile_cell_names_distinct: "distinct (geom_names (fst (compile_cell K i j c)))"
  using cell_name_prefix [of i j i j] by (auto simp: compile_cell_names)

lemma cell_names_disjoint:
  assumes "V \<inter> W = {}"
  shows "cell_names V \<inter> cell_names W = {}"
  using assms cell_name_prefix cell_name_prefix [symmetric]
  by (auto simp: cell_names_def dest!: cell_name_inj)

lemma cell_names_insert: "cell_names V \<union> cell_names {q} = cell_names (insert q V)"
  by (auto simp: cell_names_def)

lemma compile_scan_names:
  assumes "compile_scan K grid ps acc = Inr (els, mbs)"
    and "distinct ps"
    and "distinct (geom_names (fst acc))"
    and "set (geom_names (fst acc)) \<subseteq>
           cell_names V"
    and "V \<inter> set ps = {}"
  shows "(\<exists>added. els = fst acc @ added) \<and> distinct (geom_names els) \<and>
         set (geom_names els) \<subseteq>
           cell_names (V \<union> set ps)"
  using assms
proof (induction ps arbitrary: acc V)
  case Nil
  then show ?case by simp
next
  case (Cons q ps)
  obtain i j where q: "q = (i, j)" by (cases q)
  from Cons.prems(1) obtain c where c: "at_cell grid i j = Inr c"
    unfolding q by (auto split: sum.splits)
  let ?acc = "(fst acc @ fst (compile_cell K i j c), snd acc @ snd (compile_cell K i j c))"
  let ?N = "\<lambda>V. cell_names V"
  have scan: "compile_scan K grid ps ?acc = Inr (els, mbs)"
    using Cons.prems(1) c unfolding q by simp
  have dps: "distinct ps" using Cons.prems(2) by simp
  have notin: "(i, j) \<notin> V" "(i, j) \<notin> set ps"
    using Cons.prems(2,5) unfolding q by auto
  have new: "set (geom_names (fst (compile_cell K i j c))) \<subseteq> ?N {(i, j)}"
    by (rule compile_cell_names_set)
  have disj: "?N V \<inter> ?N {(i, j)} = {}"
    using notin(1) by (intro cell_names_disjoint) simp
  have d: "distinct (geom_names (fst ?acc))"
    using Cons.prems(3,4) new disj compile_cell_names_distinct [of K i j c]
    by (simp add: geom_names_append) blast
  have mono: "?N V \<union> ?N {(i, j)} \<subseteq> ?N (insert (i, j) V)"
    by (simp add: cell_names_insert)
  have sub: "set (geom_names (fst ?acc)) \<subseteq> ?N (insert (i, j) V)"
    using Cons.prems(4) new mono by (simp add: geom_names_append) blast
  have inter: "insert (i, j) V \<inter> set ps = {}"
    using Cons.prems(5) notin(2) unfolding q by auto
  from Cons.IH [OF scan dps d sub inter]
  have r: "(\<exists>added. els = fst ?acc @ added)" "distinct (geom_names els)"
    "set (geom_names els) \<subseteq> ?N (insert (i, j) V \<union> set ps)"
    by blast+
  from r(1) have "\<exists>added. els = fst acc @ added" by auto
  moreover have "insert (i, j) V \<union> set ps = V \<union> set (q # ps)" unfolding q by auto
  ultimately show ?case using r(2,3) by simp
qed

lemma compile_scan_total:
  assumes "\<forall>(i, j) \<in> set ps. i < length grid \<and> j < length (grid ! i)"
  shows "\<exists>r. compile_scan K grid ps acc = Inr r"
  using assms
proof (induction ps arbitrary: acc)
  case Nil
  then show ?case by simp
next
  case (Cons q ps)
  obtain i j where q: "q = (i, j)" by (cases q)
  from Cons.prems have c: "at_cell grid i j = Inr (grid ! i ! j)"
    unfolding q by (simp add: at_cell_def)
  from Cons.prems have "\<forall>(i, j) \<in> set ps. i < length grid \<and> j < length (grid ! i)" by simp
  from Cons.IH [OF this] show ?case unfolding q by (simp add: c)
qed

lemma init_scene:
  assumes "AntMazeEnv_init M U a tree = Inr (env, tree')"
  shows "\<exists>K added. compile_scan K (arg_structure a) (grid_cells (arg_structure a)) ([], []) =
            Inr (added, movable_blocks env) \<and>
          worldbody tree' = worldbody tree @ added \<and>
          torso_geoms tree' = torso_geoms tree \<and>
          K = \<lparr>sc_utils = U, sc_put_spin = arg_put_spin_near_agent a,
               sc_elevated = elevated env, sc_height = arg_maze_height a,
               sc_size_scaling = arg_maze_size_scaling a,
               sc_torso_x = init_torso_x env, sc_torso_y = init_torso_y env,
               sc_height_offset =
                 (if elevated env then arg_maze_height a * arg_maze_size_scaling a else 0),
               sc_rows = length (arg_structure a), sc_cols = ncols (arg_structure a)\<rparr> \<and>
          \<not> list_ex (\<lambda>geom. map_of geom ''name'' = None) (torso_geoms tree)"
  using assms
  by (auto simp: AntMazeEnv_init_def Let_def split: sum.splits prod.splits if_splits)

text \<open>
  The constructor returns on a two-dimensional grid with a robot-start cell when every geom
  of the torso has a name.
\<close>

lemma init_returns:
  assumes "rectangular (arg_structure a)"
    and "Str ''r'' \<in> set (concat (arg_structure a))"
    and "\<not> list_ex (\<lambda>geom. map_of geom ''name'' = None) (torso_geoms tree)"
  shows "\<exists>env tree'. AntMazeEnv_init M U a tree = Inr (env, tree')"
proof -
  let ?P = "\<lambda>(i, j). arg_structure a ! i ! j = Str ''r''"
  from assms(2) have "count_list (concat (arg_structure a)) (Str ''r'') \<noteq> 0"
    by (simp add: count_list_0_iff)
  then have "filter ?P (grid_cells (arg_structure a)) \<noteq> []"
    using robot_cells_count [OF assms(1)] by auto
  then obtain tx ty where
    fr: "find_robot (arg_structure a) (arg_maze_size_scaling a) = Inr (tx, ty)"
    by (cases "filter ?P (grid_cells (arg_structure a))")
       (auto simp: find_robot_rect [OF assms(1)])
  note far = find_all_robots_rect [OF assms(1), of "arg_maze_size_scaling a"]
  define K where "K =
     \<lparr>sc_utils = U, sc_put_spin = arg_put_spin_near_agent a,
      sc_elevated = list_ex (\<lambda>row. Num (- 1) \<in> set row) (arg_structure a),
      sc_height = arg_maze_height a,
      sc_size_scaling = arg_maze_size_scaling a, sc_torso_x = tx, sc_torso_y = ty,
      sc_height_offset =
        (if list_ex (\<lambda>row. Num (- 1) \<in> set row) (arg_structure a)
         then arg_maze_height a * arg_maze_size_scaling a else 0),
      sc_rows = length (arg_structure a), sc_cols = ncols (arg_structure a)\<rparr>"
  from compile_scan_total [OF grid_cells_in_bounds [OF assms(1)], of K "([], [])"]
  obtain added mblocks where
    scan: "compile_scan K (arg_structure a) (grid_cells (arg_structure a)) ([], []) =
             Inr (added, mblocks)"
    by (metis surj_pair)
  show ?thesis
    unfolding AntMazeEnv_init_def Let_def
    using assms(3) by (simp add: fr far scan [unfolded K_def])
qed

lemma init_added_names:
  assumes init: "AntMazeEnv_init M U a tree = Inr (env, tree')"
  shows "(\<exists>added. worldbody tree' = worldbody tree @ added \<and>
            distinct (geom_names added) \<and> None \<notin> set (geom_names added)) \<and>
         \<not> list_ex (\<lambda>geom. map_of geom ''name'' = None) (torso_geoms tree)"
proof -
  from init_scene [OF init] obtain K added where
    scan: "compile_scan K (arg_structure a) (grid_cells (arg_structure a)) ([], []) =
            Inr (added, movable_blocks env)"
    and wb: "worldbody tree' = worldbody tree @ added"
    and tg: "\<not> list_ex (\<lambda>geom. map_of geom ''name'' = None) (torso_geoms tree)"
    by blast
  from compile_scan_names [OF scan distinct_grid_cells, of "{}"]
  have d: "distinct (geom_names added)"
    and s: "set (geom_names added) \<subseteq>
           cell_names (set (grid_cells (arg_structure a)))"
    by (simp_all add: geom_names_def)
  from s have "None \<notin> set (geom_names added)" by (auto simp: cell_names_def)
  with wb d tg show ?thesis by blast
qed

lemma init_unnamed_torso_geom:
  assumes rect: "rectangular (arg_structure a)"
    and robot: "Str ''r'' \<in> set (concat (arg_structure a))"
    and tg: "list_ex (\<lambda>geom. map_of geom ''name'' = None) (torso_geoms tree)"
  shows "AntMazeEnv_init M U a tree = Inl GeomNameException"
proof -
  let ?P = "\<lambda>(i, j). arg_structure a ! i ! j = Str ''r''"
  from robot have "count_list (concat (arg_structure a)) (Str ''r'') \<noteq> 0"
    by (simp add: count_list_0_iff)
  then have "filter ?P (grid_cells (arg_structure a)) \<noteq> []"
    using robot_cells_count [OF rect] by auto
  then obtain tx ty where
    fr: "find_robot (arg_structure a) (arg_maze_size_scaling a) = Inr (tx, ty)"
    by (cases "filter ?P (grid_cells (arg_structure a))")
       (auto simp: find_robot_rect [OF rect])
  note far = find_all_robots_rect [OF rect, of "arg_maze_size_scaling a"]
  define K where "K =
     \<lparr>sc_utils = U, sc_put_spin = arg_put_spin_near_agent a,
      sc_elevated = list_ex (\<lambda>row. Num (- 1) \<in> set row) (arg_structure a),
      sc_height = arg_maze_height a,
      sc_size_scaling = arg_maze_size_scaling a, sc_torso_x = tx, sc_torso_y = ty,
      sc_height_offset =
        (if list_ex (\<lambda>row. Num (- 1) \<in> set row) (arg_structure a)
         then arg_maze_height a * arg_maze_size_scaling a else 0),
      sc_rows = length (arg_structure a), sc_cols = ncols (arg_structure a)\<rparr>"
  from compile_scan_total [OF grid_cells_in_bounds [OF rect], of K "([], [])"]
  obtain added mblocks where
    scan: "compile_scan K (arg_structure a) (grid_cells (arg_structure a)) ([], []) =
             Inr (added, mblocks)"
    by (metis surj_pair)
  show ?thesis
    unfolding AntMazeEnv_init_def Let_def
    by (simp add: fr far scan [unfolded K_def] tg)
qed

text \<open>
  Claim C3, as the code has it. Every geom that the scene compiler adds to \<open>worldbody\<close>
  carries a name, and these names are pairwise distinct across all cells of the grid. The
  check after the compilation looks at the geoms of the torso and raises exactly when one
  of them has no \<open>name\<close> attribute; it does not compare names: with a two-dimensional
  grid that holds a robot-start cell, the constructor returns if and only if every geom of
  the torso has a name, and it raises \<open>GeomNameException\<close> if and only if one of them has
  none.
\<close>

theorem scene_geom_names:
  "(AntMazeEnv_init M U a tree = Inr (env, tree') \<longrightarrow>
      (\<exists>added. worldbody tree' = worldbody tree @ added \<and>
         distinct (geom_names added) \<and> None \<notin> set (geom_names added)) \<and>
      \<not> list_ex (\<lambda>geom. map_of geom ''name'' = None) (torso_geoms tree)) \<and>
   (rectangular (arg_structure a) \<and> Str ''r'' \<in> set (concat (arg_structure a)) \<and>
    list_ex (\<lambda>geom. map_of geom ''name'' = None) (torso_geoms tree) \<longrightarrow>
      AntMazeEnv_init M U a tree = Inl GeomNameException) \<and>
   (rectangular (arg_structure a) \<and> Str ''r'' \<in> set (concat (arg_structure a)) \<longrightarrow>
      ((\<exists>env0 tree0. AntMazeEnv_init M U a tree = Inr (env0, tree0)) \<longleftrightarrow>
         \<not> list_ex (\<lambda>geom. map_of geom ''name'' = None) (torso_geoms tree)) \<and>
      (AntMazeEnv_init M U a tree = Inl GeomNameException \<longleftrightarrow>
         list_ex (\<lambda>geom. map_of geom ''name'' = None) (torso_geoms tree)))"
proof -
  have p1: "AntMazeEnv_init M U a tree = Inr (env, tree') \<longrightarrow>
      (\<exists>added. worldbody tree' = worldbody tree @ added \<and>
         distinct (geom_names added) \<and> None \<notin> set (geom_names added)) \<and>
      \<not> list_ex (\<lambda>geom. map_of geom ''name'' = None) (torso_geoms tree)"
    using init_added_names [of M U a tree env tree'] by blast
  have p2: "rectangular (arg_structure a) \<and> Str ''r'' \<in> set (concat (arg_structure a)) \<and>
    list_ex (\<lambda>geom. map_of geom ''name'' = None) (torso_geoms tree) \<longrightarrow>
      AntMazeEnv_init M U a tree = Inl GeomNameException"
    using init_unnamed_torso_geom [of a tree M U] by blast
  have p3: "(\<exists>env0 tree0. AntMazeEnv_init M U a tree = Inr (env0, tree0)) \<longleftrightarrow>
         \<not> list_ex (\<lambda>geom. map_of geom ''name'' = None) (torso_geoms tree)"
    if h: "rectangular (arg_structure a) \<and> Str ''r'' \<in> set (concat (arg_structure a))"
  proof
    assume "\<exists>env0 tree0. AntMazeEnv_init M U a tree = Inr (env0, tree0)"
    then obtain env0 tree0 where "AntMazeEnv_init M U a tree = Inr (env0, tree0)" by blast
    from init_added_names [OF this]
    show "\<not> list_ex (\<lambda>geom. map_of geom ''name'' = None) (torso_geoms tree)" by blast
  next
    assume "\<not> list_ex (\<lambda>geom. map_of geom ''name'' = None) (torso_geoms tree)"
    with h init_returns [of a tree M U]
    show "\<exists>env0 tree0. AntMazeEnv_init M U a tree = Inr (env0, tree0)" by blast
  qed
  have p4: "AntMazeEnv_init M U a tree = Inl GeomNameException \<longleftrightarrow>
         list_ex (\<lambda>geom. map_of geom ''name'' = None) (torso_geoms tree)"
    if h: "rectangular (arg_structure a) \<and> Str ''r'' \<in> set (concat (arg_structure a))"
  proof
    assume e: "AntMazeEnv_init M U a tree = Inl GeomNameException"
    show "list_ex (\<lambda>geom. map_of geom ''name'' = None) (torso_geoms tree)"
    proof (rule ccontr)
      assume "\<not> list_ex (\<lambda>geom. map_of geom ''name'' = None) (torso_geoms tree)"
      with p3 [OF h] e show False by auto
    qed
  next
    assume "list_ex (\<lambda>geom. map_of geom ''name'' = None) (torso_geoms tree)"
    with h p2 show "AntMazeEnv_init M U a tree = Inl GeomNameException" by blast
  qed
  from p1 p2 p3 p4 show ?thesis by blast
qed

lemma sample_scene_names:
  "geom_names (worldbody (snd (projr
     (AntMazeEnv_init sample_model sample_utils sample_args sample_tree)))) =
   [Some (Text ''block_0_0''), Some (Text ''block_0_2''), Some (Text ''block_0_3'')]"
  by code_simp

theorem scene_geom_names_counterexample:
  "\<not> distinct (map (\<lambda>geom. map_of geom ''name'') (torso_geoms dup_tree)) \<and>
   \<not> isl (AntMazeEnv_init sample_model sample_utils sample_args dup_tree) \<and>
   geom_names (worldbody (snd (projr
     (AntMazeEnv_init sample_model sample_utils sample_args dup_tree)))) =
     [Some (Text ''block_0_0''), Some (Text ''block_0_0''),
      Some (Text ''block_0_2''), Some (Text ''block_0_3'')]"
  by code_simp

theorem scene_geom_names_witness:
  "(\<exists>tree'. AntMazeEnv_init sample_model sample_utils sample_args sample_tree =
       Inr (sample_env, tree') \<and>
     distinct (geom_names (drop (length (worldbody sample_tree)) (worldbody tree')))) \<and>
   geom_names (worldbody (snd (projr
     (AntMazeEnv_init sample_model sample_utils sample_args sample_tree)))) =
     [Some (Text ''block_0_0''), Some (Text ''block_0_2''), Some (Text ''block_0_3'')] \<and>
   rectangular (arg_structure sample_args) \<and>
   Str ''r'' \<in> set (concat (arg_structure sample_args)) \<and>
   list_ex (\<lambda>geom. map_of geom ''name'' = None)
     (torso_geoms (sample_tree\<lparr>torso_geoms := [[(''name'', Text ''torso_geom'')], []]\<rparr>)) \<and>
   AntMazeEnv_init sample_model sample_utils sample_args
     (sample_tree\<lparr>torso_geoms := [[(''name'', Text ''torso_geom'')], []]\<rparr>) =
     Inl GeomNameException \<and>
   \<not> list_ex (\<lambda>geom. map_of geom ''name'' = None) (torso_geoms dup_tree) \<and>
   (\<exists>env0 tree0. AntMazeEnv_init sample_model sample_utils sample_args dup_tree =
      Inr (env0, tree0)) \<and>
   AntMazeEnv_init sample_model sample_utils sample_args dup_tree \<noteq> Inl GeomNameException"
proof -
  from sample_init obtain tree1 where
    i1: "AntMazeEnv_init sample_model sample_utils sample_args sample_tree =
         Inr (sample_env, tree1)"
    by blast
  from scene_geom_names [of sample_model sample_utils sample_args sample_tree sample_env tree1] i1
  obtain added where "worldbody tree1 = worldbody sample_tree @ added"
    and "distinct (geom_names added)"
    by blast
  then have d: "distinct (geom_names (drop (length (worldbody sample_tree)) (worldbody tree1)))"
    by simp
  have r: "rectangular (arg_structure sample_args)"
    by (simp add: sample_args_def rectangular_def ncols_def)
  have s: "Str ''r'' \<in> set (concat (arg_structure sample_args))"
    by (simp add: sample_args_def)
  have n: "list_ex (\<lambda>geom. map_of geom ''name'' = None)
     (torso_geoms (sample_tree\<lparr>torso_geoms := [[(''name'', Text ''torso_geom'')], []]\<rparr>))"
    by simp
  from scene_geom_names [of sample_model sample_utils sample_args
      "sample_tree\<lparr>torso_geoms := [[(''name'', Text ''torso_geom'')], []]\<rparr>"] r s n
  have e: "AntMazeEnv_init sample_model sample_utils sample_args
     (sample_tree\<lparr>torso_geoms := [[(''name'', Text ''torso_geom'')], []]\<rparr>) =
     Inl GeomNameException"
    by blast
  have m: "\<not> list_ex (\<lambda>geom. map_of geom ''name'' = None) (torso_geoms dup_tree)"
    by (simp add: dup_tree_def)
  from scene_geom_names [of sample_model sample_utils sample_args dup_tree] r s m
  have f: "\<exists>env0 tree0. AntMazeEnv_init sample_model sample_utils sample_args dup_tree =
      Inr (env0, tree0)"
    and g: "AntMazeEnv_init sample_model sample_utils sample_args dup_tree \<noteq>
      Inl GeomNameException"
    by blast+
  from i1 d sample_scene_names r s n e m f g show ?thesis by blast
qed

lemma compile_scan_contains:
  assumes "compile_scan K grid ps acc = Inr (els, mbs)"
  shows "set (fst acc) \<subseteq> set els \<and> set (snd acc) \<subseteq> set mbs \<and>
         (\<forall>(i, j) \<in> set ps. \<exists>c. at_cell grid i j = Inr c \<and>
            set (fst (compile_cell K i j c)) \<subseteq> set els \<and>
            set (snd (compile_cell K i j c)) \<subseteq> set mbs)"
  using assms
proof (induction ps arbitrary: acc)
  case Nil
  then show ?case by auto
next
  case (Cons q ps)
  obtain i j where q: "q = (i, j)" by (cases q)
  from Cons.prems obtain c where c: "at_cell grid i j = Inr c"
    unfolding q by (auto split: sum.splits)
  let ?acc = "(fst acc @ fst (compile_cell K i j c), snd acc @ snd (compile_cell K i j c))"
  have scan: "compile_scan K grid ps ?acc = Inr (els, mbs)"
    using Cons.prems c unfolding q by simp
  from Cons.IH [OF scan] c show ?case unfolding q by auto
qed

lemma compile_cell_block_entry:
  assumes "(n, c') \<in> set (snd (compile_cell K i j c))"
  shows "n = cell_name ''movable_'' i j \<and> c' = cell_struct K c \<and> c' \<noteq> Num 1"
  using assms by (auto simp: compile_cell_def Let_def split: if_splits)

lemma compile_scan_block_origin:
  assumes "compile_scan K grid ps acc = Inr (els, mbs)" and "(n, c') \<in> set mbs"
  shows "(n, c') \<in> set (snd acc) \<or>
         (\<exists>(i, j) \<in> set ps. \<exists>c. at_cell grid i j = Inr c \<and>
            (n, c') \<in> set (snd (compile_cell K i j c)))"
  using assms
proof (induction ps arbitrary: acc)
  case Nil
  then show ?case by auto
next
  case (Cons q ps)
  obtain i j where q: "q = (i, j)" by (cases q)
  from Cons.prems(1) obtain c where c: "at_cell grid i j = Inr c"
    unfolding q by (auto split: sum.splits)
  let ?acc = "(fst acc @ fst (compile_cell K i j c), snd acc @ snd (compile_cell K i j c))"
  have scan: "compile_scan K grid ps ?acc = Inr (els, mbs)"
    using Cons.prems(1) c unfolding q by simp
  from Cons.IH [OF scan Cons.prems(2)] c show ?case unfolding q by auto
qed

text \<open>
  Claim C8, as the code has it. With \<open>put_spin_near_agent\<close> set, and \<open>Move.SpinXY\<close> a
  movable, spin-capable tag different from 1, every robot-start cell \<open>(i, j)\<close> of the grid
  is compiled as the movable block \<open>movable_i_j\<close> of type \<open>SpinXY\<close>: a body shifted by a
  quarter cell in x whose geom is shrunk by the factor 0.1. A wall cell stays the static
  box it is and gives no movable block.
\<close>

theorem put_spin_near_agent_cells:
  assumes "AntMazeEnv_init M U a tree = Inr (env, tree')"
    and "arg_put_spin_near_agent a"
    and "can_move U (Move_SpinXY U)"
    and "can_spin U (Move_SpinXY U)"
    and "Move_SpinXY U \<noteq> Num 1"
    and "(i, j) \<in> set (grid_cells (arg_structure a))"
    and "height = arg_maze_height a"
    and "size_scaling = arg_maze_size_scaling a"
    and "height_offset = (if elevated env then height * size_scaling else 0)"
  shows "(at_cell (arg_structure a) i j = Inr (Str ''r'') \<longrightarrow>
            (cell_name ''movable_'' i j, Move_SpinXY U) \<in> set (movable_blocks env) \<and>
            Element ''body''
              [(''name'', Text (cell_name ''movable_'' i j)),
               (''pos'', Floats [real j * size_scaling - init_torso_x env + 0.25 * size_scaling,
                                 real i * size_scaling - init_torso_y env + 0.0,
                                 height_offset + height / 2 * size_scaling * 0.1])]
              (Element ''geom''
                 [(''name'', Text (cell_name ''block_'' i j)),
                  (''pos'', Text ''0 0 0''),
                  (''size'', Floats [0.5 * size_scaling * 0.1,
                                     0.5 * size_scaling * 0.1,
                                     height / 2 * size_scaling * 0.1]),
                  (''type'', Text ''box''),
                  (''material'', Text []),
                  (''mass'', Text (if can_move_z U (Move_SpinXY U) then ''0.001'' else ''0.0002'')),
                  (''contype'', Text ''1''),
                  (''conaffinity'', Text ''1''),
                  (''rgba'', Text ''0.9 0.1 0.1 1'')]
                 [] #
               movable_joints U size_scaling height_offset (Move_SpinXY U) i j)
              \<in> set (worldbody tree')) \<and>
         (at_cell (arg_structure a) i j = Inr (Num 1) \<longrightarrow>
            wall_geom height size_scaling (init_torso_x env) (init_torso_y env) height_offset
              (length (arg_structure a)) (ncols (arg_structure a)) i j
              \<in> set (worldbody tree') \<and>
            cell_name ''movable_'' i j \<notin> fst ` set (movable_blocks env))"
proof -
  from init_scene [OF assms(1)] obtain K added where
    scan: "compile_scan K (arg_structure a) (grid_cells (arg_structure a)) ([], []) =
            Inr (added, movable_blocks env)"
    and wb: "worldbody tree' = worldbody tree @ added"
    and K: "K = \<lparr>sc_utils = U, sc_put_spin = arg_put_spin_near_agent a,
               sc_elevated = elevated env, sc_height = arg_maze_height a,
               sc_size_scaling = arg_maze_size_scaling a,
               sc_torso_x = init_torso_x env, sc_torso_y = init_torso_y env,
               sc_height_offset =
                 (if elevated env then arg_maze_height a * arg_maze_size_scaling a else 0),
               sc_rows = length (arg_structure a), sc_cols = ncols (arg_structure a)\<rparr>"
    by blast
  from compile_scan_contains [OF scan] assms(6) obtain c where
    c: "at_cell (arg_structure a) i j = Inr c"
    and els: "set (fst (compile_cell K i j c)) \<subseteq> set added"
    and mbs: "set (snd (compile_cell K i j c)) \<subseteq> set (movable_blocks env)"
    by blast
  show ?thesis
  proof (intro conjI impI)
    assume r: "at_cell (arg_structure a) i j = Inr (Str ''r'')"
    with c have cr: "c = Str ''r''" by simp
    have st: "cell_struct K (Str ''r'') = Move_SpinXY U"
      using assms(2) by (simp add: cell_struct_def K)
    from mbs show "(cell_name ''movable_'' i j, Move_SpinXY U) \<in> set (movable_blocks env)"
      unfolding cr compile_cell_def Let_def st
      using assms(3,5) by (simp add: K)
    from els have "movable_body U height size_scaling (init_torso_x env) (init_torso_y env)
        height_offset (Move_SpinXY U) i j \<in> set added"
      unfolding cr compile_cell_def Let_def st
      using assms(3,5) by (auto simp: K assms(7,8,9))
    then show "Element ''body''
              [(''name'', Text (cell_name ''movable_'' i j)),
               (''pos'', Floats [real j * size_scaling - init_torso_x env + 0.25 * size_scaling,
                                 real i * size_scaling - init_torso_y env + 0.0,
                                 height_offset + height / 2 * size_scaling * 0.1])]
              (Element ''geom''
                 [(''name'', Text (cell_name ''block_'' i j)),
                  (''pos'', Text ''0 0 0''),
                  (''size'', Floats [0.5 * size_scaling * 0.1,
                                     0.5 * size_scaling * 0.1,
                                     height / 2 * size_scaling * 0.1]),
                  (''type'', Text ''box''),
                  (''material'', Text []),
                  (''mass'', Text (if can_move_z U (Move_SpinXY U) then ''0.001'' else ''0.0002'')),
                  (''contype'', Text ''1''),
                  (''conaffinity'', Text ''1''),
                  (''rgba'', Text ''0.9 0.1 0.1 1'')]
                 [] #
               movable_joints U size_scaling height_offset (Move_SpinXY U) i j)
              \<in> set (worldbody tree')"
      using assms(4)
      by (simp add: wb movable_body_def movable_geom_def shrink_def height_shrink_def Let_def)
  next
    assume w: "at_cell (arg_structure a) i j = Inr (Num 1)"
    with c have cw: "c = Num 1" by simp
    have st: "cell_struct K (Num 1) = Num 1" by (simp add: cell_struct_def)
    from els show "wall_geom height size_scaling (init_torso_x env) (init_torso_y env)
        height_offset (length (arg_structure a)) (ncols (arg_structure a)) i j
        \<in> set (worldbody tree')"
      unfolding cw compile_cell_def Let_def st
      by (auto simp: K wb assms(7,8,9))
    show "cell_name ''movable_'' i j \<notin> fst ` set (movable_blocks env)"
    proof
      assume "cell_name ''movable_'' i j \<in> fst ` set (movable_blocks env)"
      then obtain c' where m: "(cell_name ''movable_'' i j, c') \<in> set (movable_blocks env)"
        by auto
      from compile_scan_block_origin [OF scan m] obtain i' j' c'' where
        c'': "at_cell (arg_structure a) i' j' = Inr c''"
        and e: "(cell_name ''movable_'' i j, c') \<in> set (snd (compile_cell K i' j' c''))"
        by auto
      from compile_cell_block_entry [OF e]
      have n: "cell_name ''movable_'' i j = cell_name ''movable_'' i' j'"
        and s: "cell_struct K c'' \<noteq> Num 1" by auto
      from cell_name_inj [OF n] have "i' = i" "j' = j" by auto
      with c'' w have "c'' = Num 1" by simp
      with s st show False by simp
    qed
  qed
qed

lemma spin_init:
  "AntMazeEnv_init sample_model sample_utils spin_args sample_tree =
     Inr (fst (projr (AntMazeEnv_init sample_model sample_utils spin_args sample_tree)),
          snd (projr (AntMazeEnv_init sample_model sample_utils spin_args sample_tree)))"
  by code_simp

theorem put_spin_near_agent_cells_counterexample:
  "arg_put_spin_near_agent spin_args \<and>
   arg_structure spin_args = [[Num 1, Str ''r'']] \<and>
   movable_blocks (fst (projr (AntMazeEnv_init sample_model sample_utils spin_args sample_tree)))
     = [(''movable_0_1'', Num 18)] \<and>
   map name_of
     (worldbody (snd (projr (AntMazeEnv_init sample_model sample_utils spin_args sample_tree))))
     = [Some (Text ''block_0_0''), Some (Text ''movable_0_1'')] \<and>
   worldbody (snd (projr (AntMazeEnv_init sample_model sample_utils spin_args sample_tree))) ! 0
     = wall_geom (1 / 2) 2 2 0 0 1 2 0 0"
  by code_simp

theorem put_spin_near_agent_cells_witness:
  "arg_put_spin_near_agent spin_args \<and>
   can_move sample_utils (Move_SpinXY sample_utils) \<and>
   can_spin sample_utils (Move_SpinXY sample_utils) \<and>
   Move_SpinXY sample_utils \<noteq> Num 1 \<and>
   (0, 1) \<in> set (grid_cells (arg_structure spin_args)) \<and>
   (0, 0) \<in> set (grid_cells (arg_structure spin_args)) \<and>
   at_cell (arg_structure spin_args) 0 1 = Inr (Str ''r'') \<and>
   (cell_name ''movable_'' 0 1, Move_SpinXY sample_utils) \<in>
     set (movable_blocks
           (fst (projr (AntMazeEnv_init sample_model sample_utils spin_args sample_tree)))) \<and>
   at_cell (arg_structure spin_args) 0 0 = Inr (Num 1) \<and>
   cell_name ''movable_'' 0 0 \<notin>
     fst ` set (movable_blocks
           (fst (projr (AntMazeEnv_init sample_model sample_utils spin_args sample_tree))))"
proof -
  have p: "arg_put_spin_near_agent spin_args"
    by (simp add: spin_args_def)
  have m: "can_move sample_utils (Move_SpinXY sample_utils)"
    and s: "can_spin sample_utils (Move_SpinXY sample_utils)"
    and n: "Move_SpinXY sample_utils \<noteq> Num 1"
    by (simp_all add: sample_utils_def)
  have g1: "(0, 1) \<in> set (grid_cells (arg_structure spin_args))"
    and g0: "(0, 0) \<in> set (grid_cells (arg_structure spin_args))"
    by (simp_all add: spin_args_def grid_cells_def ncols_def)
  have a1: "at_cell (arg_structure spin_args) 0 1 = Inr (Str ''r'')"
    and a0: "at_cell (arg_structure spin_args) 0 0 = Inr (Num 1)"
    by (simp_all add: spin_args_def at_cell_def)
  from put_spin_near_agent_cells [OF spin_init p m s n g1 refl refl refl] a1
  have c1: "(cell_name ''movable_'' 0 1, Move_SpinXY sample_utils) \<in>
     set (movable_blocks
           (fst (projr (AntMazeEnv_init sample_model sample_utils spin_args sample_tree))))"
    by blast
  from put_spin_near_agent_cells [OF spin_init p m s n g0 refl refl refl] a0
  have c0: "cell_name ''movable_'' 0 0 \<notin>
     fst ` set (movable_blocks
           (fst (projr (AntMazeEnv_init sample_model sample_utils spin_args sample_tree))))"
    by blast
  from p m s n g1 g0 a1 c1 a0 c0 show ?thesis by blast
qed

end
